theory Spec2Isabelle
  imports Main
begin

section \<open>Card-key activation handlers\<close>

text \<open>
  The repository holds three request handlers for the same endpoint:
  \<^item> \<open>onRequest\<close> (src/index.ts): 16-character keys, the expiry stored in the row
    (\<open>expires_at\<close>), the branch clock taken from \<open>Date.now()\<close>;
  \<^item> \<open>fetch\<close> (first document of part_000): 5x5 keys, the expiry derived from
    \<open>first_used_at\<close>, the branch clock taken from \<open>Date.now()\<close>;
  \<^item> \<open>fetch_cors\<close> (second document of part_000, the \<open>fetch\<close> with CORS headers):
    5x5 keys, the expiry derived from \<open>first_used_at\<close>, every clock reading taken
    from the database.
  Each handler is a function of the request, of the values the environment supplies
  during the call (clock readings, the random session token, whether a database call
  throws) and of the table \<open>card_keys\<close>; it returns the response, the table after the
  call and the database calls it made, in order.

  The database engine is not part of the repository; its rules for values are those of
  SQLite. \<open>strftime('%s', 'now')\<close> is a TEXT value, the decimal digits of the database
  clock in whole epoch seconds. Arithmetic converts such a text to its number. A
  comparison converts it only when the other operand is a column of INTEGER affinity
  (the columns \<open>expires_at\<close> and \<open>first_used_at\<close> hold integer epoch seconds); between
  an INTEGER expression that is not a column and a TEXT the comparison goes by storage
  class, and every INTEGER is less than every TEXT. JavaScript numbers are integers here
  (epoch seconds).
\<close>

subsection \<open>Requests and the environment of one call\<close>

datatype http_method = GET | POST | OPTIONS | OTHER

text \<open>What \<open>request.json()\<close> yields, as far as the schema looks at it: a value without
  a string-valued \<open>cardKey\<close>, or one with it. A body that is not JSON makes
  \<open>request.json()\<close> throw: the field \<open>json\<close> is \<open>None\<close> then.\<close>

datatype json_value = NoCardKey | CardKey string

record request =
  request_method :: http_method
  origin :: "string option"
  acr_method :: "string option"
  acr_headers :: "string option"
  json :: "json_value option"

record env =
  select_now :: int
  date_now :: int
  current_time :: "int option"
  update_now :: int
  randomUUID :: string
  select_throws :: bool
  current_time_throws :: bool
  update_throws :: bool

subsection \<open>Responses\<close>

datatype resp_code =
  INVALID_INPUT | INVALID_CARD | CARD_EXPIRED | SESSION_RENEWED | ACTIVATION_SUCCESS | SERVER_ERROR

datatype zod_issue = InvalidType | PatternMismatch

datatype fault = SyntaxError | D1_ERROR

datatype message =
  InvalidOrExpired | Expired | BadFormat16 | BadFormat zod_issue | VerifyFailed | VerifyFailedWith fault

record json_reply =
  valid :: bool
  code :: resp_code
  expires_in :: "int option"
  message :: "message option"

datatype body = NoBody | UsePost | Json json_reply

text \<open>The cookie \<open>session=<token>; Path=/; HttpOnly; Secure; SameSite=Strict; Max-Age=<n>\<close>.\<close>

record cookie =
  session :: string
  path :: string
  http_only :: bool
  secure :: bool
  same_site :: string
  max_age :: int

record response =
  status :: nat
  body :: body
  set_cookie :: "cookie option"
  headers :: "(string \<times> string) list"

datatype db_call = SelectCard string | SelectCurrentTime | UpdateCard string

record 's handled =
  response :: response
  db :: 's
  calls :: "db_call list"

text \<open>A handler either answers after its reads, or goes on to the first-activation
  write with the key, the branch clock and the database calls made so far.\<close>

datatype decision = Respond response "db_call list" | Activate string int "db_call list"

definition reply_of :: "response \<Rightarrow> json_reply option" where
  "reply_of r = (case body r of Json j \<Rightarrow> Some j | _ \<Rightarrow> None)"

definition code_of :: "response \<Rightarrow> resp_code option" where
  "code_of r = map_option code (reply_of r)"

definition session_cookie :: "string \<Rightarrow> int \<Rightarrow> cookie" where
  "session_cookie sessionToken maxAge =
     \<lparr>session = sessionToken, path = ''/'', http_only = True, secure = True,
      same_site = ''Strict'', max_age = maxAge\<rparr>"

definition json_headers :: "(string \<times> string) list" where
  "json_headers = [(''Content-Type'', ''application/json'')]"

definition rejection :: "nat \<Rightarrow> resp_code \<Rightarrow> message \<Rightarrow> (string \<times> string) list \<Rightarrow> response" where
  "rejection st c m hs =
     \<lparr>status = st,
      body = Json \<lparr>valid = False, code = c, expires_in = None, message = Some m\<rparr>,
      set_cookie = None, headers = json_headers @ hs\<rparr>"

definition granted :: "resp_code \<Rightarrow> int \<Rightarrow> string \<Rightarrow> int \<Rightarrow> (string \<times> string) list \<Rightarrow> response" where
  "granted c expiresIn sessionToken maxAge hs =
     \<lparr>status = 200,
      body = Json \<lparr>valid = True, code = c, expires_in = Some expiresIn, message = None\<rparr>,
      set_cookie = Some (session_cookie sessionToken maxAge), headers = json_headers @ hs\<rparr>"

definition method_not_allowed :: "(string \<times> string) list \<Rightarrow> response" where
  "method_not_allowed hs = \<lparr>status = 405, body = UsePost, set_cookie = None, headers = hs\<rparr>"

subsection \<open>Input validation\<close>

definition is_upper_alnum :: "char \<Rightarrow> bool" where
  "is_upper_alnum c =
     (let n = (of_char c :: nat) in (65 \<le> n \<and> n \<le> 90) \<or> (48 \<le> n \<and> n \<le> 57))"

text \<open>\<open>z.string().length(16).regex(/^[A-Z0-9]+$/)\<close> of src/index.ts.\<close>

definition CardValidationSchema16 :: "json_value \<Rightarrow> zod_issue + string" where
  "CardValidationSchema16 data =
     (case data of
        NoCardKey \<Rightarrow> Inl InvalidType
      | CardKey cardKey \<Rightarrow>
          if length cardKey = 16 \<and> cardKey \<noteq> [] \<and> list_all is_upper_alnum cardKey
          then Inr cardKey else Inl PatternMismatch)"

text \<open>\<open>/^[A-Z0-9]{5}-[A-Z0-9]{5}-[A-Z0-9]{5}-[A-Z0-9]{5}-[A-Z0-9]{5}$/\<close> of part_000:
  29 characters, a hyphen at the positions 5, 11, 17 and 23.\<close>

definition card_pattern :: "string \<Rightarrow> bool" where
  "card_pattern s =
     (length s = 29 \<and>
      list_all (\<lambda>i. if i mod 6 = 5 then s ! i = CHR ''-'' else is_upper_alnum (s ! i)) [0..<29])"

definition CardValidationSchema :: "json_value \<Rightarrow> zod_issue + string" where
  "CardValidationSchema data =
     (case data of
        NoCardKey \<Rightarrow> Inl InvalidType
      | CardKey cardKey \<Rightarrow> if card_pattern cardKey then Inr cardKey else Inl PatternMismatch)"

subsection \<open>The table \<open>card_keys\<close>\<close>

text \<open>The row of src/index.ts (interface \<open>CardKey\<close>); the key column indexes the table.\<close>

record legacy_row =
  expires_at :: int
  is_used :: bool
  activated_at :: "int option"

type_synonym legacy_store = "string \<rightharpoonup> legacy_row"

text \<open>The row of part_000: \<open>is_used\<close> and the nullable \<open>first_used_at\<close>.\<close>

record card_row =
  is_used :: bool
  first_used_at :: "int option"

type_synonym store = "string \<rightharpoonup> card_row"

text \<open>24 * 60 * 60, the window every expiry computation of the three handlers uses.\<close>

definition WINDOW :: int where
  "WINDOW = 24 * 60 * 60"

subsection \<open>Database values\<close>

text \<open>The two storage classes the clock comparisons meet: an INTEGER, and a TEXT that
  spells an integer in decimal digits.\<close>

datatype sql_number = IntegerValue int | DigitsText int

text \<open>\<open>strftime('%s', 'now')\<close> at the database clock \<open>db_now\<close>.\<close>

definition strftime_s :: "int \<Rightarrow> sql_number" where
  "strftime_s db_now = DigitsText db_now"

text \<open>The operand of a comparison whose other side is a column of INTEGER affinity: a
  text of digits is converted to its number.\<close>

fun numeric_affinity :: "sql_number \<Rightarrow> sql_number" where
  "numeric_affinity (IntegerValue n) = IntegerValue n"
| "numeric_affinity (DigitsText n) = IntegerValue n"

text \<open>The operand of an arithmetic operator.\<close>

fun sql_numeric :: "sql_number \<Rightarrow> int" where
  "sql_numeric (IntegerValue n) = n"
| "sql_numeric (DigitsText n) = n"

text \<open>\<open>a > v\<close> for an INTEGER \<open>a\<close>, no conversion applied: numeric against an INTEGER,
  false against a TEXT.\<close>

fun integer_greater :: "int \<Rightarrow> sql_number \<Rightarrow> bool" where
  "integer_greater a (IntegerValue b) = (a > b)"
| "integer_greater a (DigitsText b) = False"

subsection \<open>Database statements\<close>

text \<open>src/index.ts, lines 25-29:
  \<open>SELECT * FROM card_keys WHERE card_key = ? AND expires_at > strftime('%s', 'now')\<close>.
  The left operand is the column \<open>expires_at\<close>, so the text is converted.\<close>

definition select_card_keys :: "legacy_store \<Rightarrow> string \<Rightarrow> int \<Rightarrow> legacy_row option" where
  "select_card_keys table cardKey db_now =
     (case table cardKey of
        None \<Rightarrow> None
      | Some row \<Rightarrow>
          if integer_greater (expires_at row) (numeric_affinity (strftime_s db_now))
          then Some row else None)"

text \<open>src/index.ts, lines 69-76:
  \<open>UPDATE card_keys SET is_used = TRUE, activated_at = ?, expires_at = ? WHERE card_key = ?\<close>
  bound to \<open>now\<close>, \<open>now + 24 * 60 * 60\<close> and the key.\<close>

definition update_card_keys :: "legacy_store \<Rightarrow> int \<Rightarrow> int \<Rightarrow> string \<Rightarrow> legacy_store" where
  "update_card_keys table activatedAt expiresAt cardKey =
     (case table cardKey of
        None \<Rightarrow> table
      | Some row \<Rightarrow>
          table(cardKey \<mapsto>
            row\<lparr>legacy_row.is_used := True, activated_at := Some activatedAt,
                expires_at := expiresAt\<rparr>))"

text \<open>part_000, lines 35-41: the row is returned when
  \<open>first_used_at IS NULL OR first_used_at + 86400 > strftime('%s', 'now')\<close>. The left
  operand of \<open>>\<close> is a sum, not a column: an INTEGER is compared with a TEXT, no
  conversion applied.\<close>

definition read_filter :: "card_row \<Rightarrow> int \<Rightarrow> bool" where
  "read_filter row db_now =
     (case first_used_at row of
        None \<Rightarrow> True
      | Some t \<Rightarrow> integer_greater (t + WINDOW) (strftime_s db_now))"

definition select_card :: "store \<Rightarrow> string \<Rightarrow> int \<Rightarrow> card_row option" where
  "select_card table cardKey db_now =
     (case table cardKey of
        None \<Rightarrow> None
      | Some row \<Rightarrow> if read_filter row db_now then Some row else None)"

text \<open>part_000, lines 226-232: the condition is written
  \<open>(first_used_at IS NULL OR first_used_at + 86400 - strftime('%s', 'now'))>0\<close>:
  the parenthesis closes after the subtraction, so \<open>OR\<close> takes the difference as its
  second operand (an SQL truth value: true when not zero) and the result of \<open>OR\<close>
  (1 or 0) is what is compared with 0. The subtraction converts the text of the clock to
  its number.\<close>

definition sql_truth :: "int \<Rightarrow> bool" where
  "sql_truth n = (n \<noteq> 0)"

definition sql_bool :: "bool \<Rightarrow> int" where
  "sql_bool b = (if b then 1 else 0)"

definition read_filter_cors :: "card_row \<Rightarrow> int \<Rightarrow> bool" where
  "read_filter_cors row db_now =
     (sql_bool (case first_used_at row of
                  None \<Rightarrow> True
                | Some t \<Rightarrow> sql_truth (t + WINDOW - sql_numeric (strftime_s db_now))) > 0)"

definition select_card_cors :: "store \<Rightarrow> string \<Rightarrow> int \<Rightarrow> card_row option" where
  "select_card_cors table cardKey db_now =
     (case table cardKey of
        None \<Rightarrow> None
      | Some row \<Rightarrow> if read_filter_cors row db_now then Some row else None)"

text \<open>part_000, lines 296-302:
  \<open>UPDATE card_keys SET is_used = 1, first_used_at = strftime('%s', 'now') WHERE key_code = ?\<close>.
  The column \<open>first_used_at\<close> stores the text of the clock as its number.\<close>

definition update_first_used :: "store \<Rightarrow> int \<Rightarrow> string \<Rightarrow> store" where
  "update_first_used table t cardKey =
     (case table cardKey of
        None \<Rightarrow> table
      | Some row \<Rightarrow> table(cardKey \<mapsto> row\<lparr>is_used := True, first_used_at := Some t\<rparr>))"

text \<open>part_000, lines 91-97: the statement
  \<open>UPDATE card_keys SET is_used = TRUE, first_used_at = ? WHERE key_code = ?\<close> has two
  placeholders and is bound to three values, \<open>now\<close>, \<open>now + expiresIn\<close> and the key.
  Values are bound by position; the database refuses a statement whose number of bound
  values is not its number of placeholders, and \<open>run()\<close> throws.\<close>

datatype sql_value = SqlInt int | SqlText string

fun run_update_first_used :: "store \<Rightarrow> sql_value list \<Rightarrow> fault + store" where
  "run_update_first_used table [SqlInt t, SqlText k] = Inr (update_first_used table t k)"
| "run_update_first_used table binds = Inl D1_ERROR"

text \<open>JavaScript's \<open>first_used_at + n\<close> on a row whose \<open>first_used_at\<close> is \<open>null\<close>:
  \<open>null\<close> counts as 0.\<close>

definition js_number :: "int option \<Rightarrow> int" where
  "js_number v = (case v of None \<Rightarrow> 0 | Some n \<Rightarrow> n)"

subsection \<open>\<open>onRequest\<close> (src/index.ts)\<close>

definition onRequest_decide :: "request \<Rightarrow> env \<Rightarrow> legacy_store \<Rightarrow> decision" where
  "onRequest_decide request e table =
     (if request_method request \<noteq> POST then Respond (method_not_allowed []) []
      else case json request of
        None \<Rightarrow> Respond (rejection 500 SERVER_ERROR VerifyFailed []) []
      | Some data \<Rightarrow>
         (case CardValidationSchema16 data of
            Inl issue \<Rightarrow> Respond (rejection 400 INVALID_INPUT BadFormat16 []) []
          | Inr cardKey \<Rightarrow>
             if select_throws e
             then Respond (rejection 500 SERVER_ERROR VerifyFailed []) [SelectCard cardKey]
             else
              (case select_card_keys table cardKey (select_now e) of
                 None \<Rightarrow>
                   Respond (rejection 200 INVALID_CARD InvalidOrExpired []) [SelectCard cardKey]
               | Some result \<Rightarrow>
                  (let now = date_now e div 1000 in
                   if legacy_row.is_used result then
                     if now > expires_at result
                     then Respond (rejection 200 CARD_EXPIRED Expired []) [SelectCard cardKey]
                     else
                      (let remainingTime = expires_at result - now in
                       Respond (granted SESSION_RENEWED remainingTime (randomUUID e)
                                  remainingTime [])
                         [SelectCard cardKey])
                   else Activate cardKey now [SelectCard cardKey]))))"

definition onRequest_activate ::
  "string \<Rightarrow> int \<Rightarrow> db_call list \<Rightarrow> env \<Rightarrow> legacy_store \<Rightarrow> legacy_store handled" where
  "onRequest_activate cardKey now made e table =
     (if update_throws e
      then \<lparr>response = rejection 500 SERVER_ERROR VerifyFailed [], db = table,
            calls = made @ [UpdateCard cardKey]\<rparr>
      else \<lparr>response = granted ACTIVATION_SUCCESS 2592000 (randomUUID e) 2592000 [],
            db = update_card_keys table now (now + 24 * 60 * 60) cardKey,
            calls = made @ [UpdateCard cardKey]\<rparr>)"

definition onRequest :: "request \<Rightarrow> env \<Rightarrow> legacy_store \<Rightarrow> legacy_store handled" where
  "onRequest request e table =
     (case onRequest_decide request e table of
        Respond r made \<Rightarrow> \<lparr>response = r, db = table, calls = made\<rparr>
      | Activate cardKey now made \<Rightarrow> onRequest_activate cardKey now made e table)"

subsection \<open>\<open>fetch\<close> (part_000, first document)\<close>

definition fetch_decide :: "request \<Rightarrow> env \<Rightarrow> store \<Rightarrow> decision" where
  "fetch_decide request e table =
     (if request_method request \<noteq> POST then Respond (method_not_allowed []) []
      else case json request of
        None \<Rightarrow> Respond (rejection 500 SERVER_ERROR (VerifyFailedWith SyntaxError) []) []
      | Some data \<Rightarrow>
         (case CardValidationSchema data of
            Inl issue \<Rightarrow> Respond (rejection 400 INVALID_INPUT (BadFormat issue) []) []
          | Inr cardKey \<Rightarrow>
             if select_throws e
             then Respond (rejection 500 SERVER_ERROR (VerifyFailedWith D1_ERROR) [])
                    [SelectCard cardKey]
             else
              (case select_card table cardKey (select_now e) of
                 None \<Rightarrow>
                   Respond (rejection 200 INVALID_CARD InvalidOrExpired []) [SelectCard cardKey]
               | Some result \<Rightarrow>
                  (let now = date_now e div 1000 in
                   if is_used result then
                    (let expiresAt = js_number (first_used_at result) + 24 * 60 * 60 in
                     if now > expiresAt
                     then Respond (rejection 200 CARD_EXPIRED Expired []) [SelectCard cardKey]
                     else
                      (let remainingTime = expiresAt - now in
                       Respond (granted SESSION_RENEWED remainingTime (randomUUID e)
                                  remainingTime [])
                         [SelectCard cardKey]))
                   else Activate cardKey now [SelectCard cardKey]))))"

definition fetch_activate ::
  "string \<Rightarrow> int \<Rightarrow> db_call list \<Rightarrow> env \<Rightarrow> store \<Rightarrow> store handled" where
  "fetch_activate cardKey now made e table =
     (let expiresIn = 24 * 60 * 60 in
      if update_throws e
      then \<lparr>response = rejection 500 SERVER_ERROR (VerifyFailedWith D1_ERROR) [], db = table,
            calls = made @ [UpdateCard cardKey]\<rparr>
      else
       (case run_update_first_used table [SqlInt now, SqlInt (now + expiresIn), SqlText cardKey] of
          Inl err \<Rightarrow>
            \<lparr>response = rejection 500 SERVER_ERROR (VerifyFailedWith err) [], db = table,
             calls = made @ [UpdateCard cardKey]\<rparr>
        | Inr table' \<Rightarrow>
            \<lparr>response = granted ACTIVATION_SUCCESS expiresIn (randomUUID e) expiresIn [],
             db = table', calls = made @ [UpdateCard cardKey]\<rparr>))"

definition fetch :: "request \<Rightarrow> env \<Rightarrow> store \<Rightarrow> store handled" where
  "fetch request e table =
     (case fetch_decide request e table of
        Respond r made \<Rightarrow> \<lparr>response = r, db = table, calls = made\<rparr>
      | Activate cardKey now made \<Rightarrow> fetch_activate cardKey now made e table)"

subsection \<open>\<open>fetch\<close> with CORS headers (part_000, second document)\<close>

definition request_origin :: "request \<Rightarrow> string" where
  "request_origin request =
     (case origin request of None \<Rightarrow> ''*'' | Some v \<Rightarrow> if v = [] then ''*'' else v)"

definition corsHeaders :: "request \<Rightarrow> (string \<times> string) list" where
  "corsHeaders request =
     [(''Access-Control-Allow-Origin'', request_origin request),
      (''Access-Control-Allow-Methods'', ''POST, OPTIONS''),
      (''Access-Control-Allow-Headers'', ''Content-Type''),
      (''Access-Control-Allow-Credentials'', ''true'')]"

definition handleOptions :: "request \<Rightarrow> response" where
  "handleOptions request =
     (if origin request \<noteq> None \<and> acr_method request \<noteq> None \<and> acr_headers request \<noteq> None
      then \<lparr>status = 200, body = NoBody, set_cookie = None,
            headers =
              [(''Access-Control-Allow-Origin'', request_origin request),
               (''Access-Control-Allow-Methods'', ''POST, OPTIONS''),
               (''Access-Control-Allow-Headers'',
                  (case acr_headers request of
                     None \<Rightarrow> ''Content-Type''
                   | Some v \<Rightarrow> if v = [] then ''Content-Type'' else v)),
               (''Access-Control-Allow-Credentials'', ''true''),
               (''Access-Control-Max-Age'', ''86400'')]\<rparr>
      else \<lparr>status = 200, body = NoBody, set_cookie = None,
            headers =
              [(''Allow'', ''POST, OPTIONS''),
               (''Access-Control-Allow-Origin'', request_origin request)]\<rparr>)"

definition fetch_cors_decide :: "request \<Rightarrow> env \<Rightarrow> store \<Rightarrow> decision" where
  "fetch_cors_decide request e table =
     (let cors = corsHeaders request in
      if request_method request = OPTIONS then Respond (handleOptions request) []
      else if request_method request \<noteq> POST then Respond (method_not_allowed cors) []
      else case json request of
        None \<Rightarrow> Respond (rejection 200 SERVER_ERROR (VerifyFailedWith SyntaxError) cors) []
      | Some data \<Rightarrow>
         (case CardValidationSchema data of
            Inl issue \<Rightarrow> Respond (rejection 200 INVALID_INPUT (BadFormat issue) cors) []
          | Inr cardKey \<Rightarrow>
             if select_throws e
             then Respond (rejection 200 SERVER_ERROR (VerifyFailedWith D1_ERROR) cors)
                    [SelectCard cardKey]
             else
              (case select_card_cors table cardKey (select_now e) of
                 None \<Rightarrow>
                   Respond (rejection 200 INVALID_CARD InvalidOrExpired cors) [SelectCard cardKey]
               | Some result \<Rightarrow>
                  if current_time_throws e
                  then Respond (rejection 200 SERVER_ERROR (VerifyFailedWith D1_ERROR) cors)
                         [SelectCard cardKey, SelectCurrentTime]
                  else
                  (let now = (case current_time e of None \<Rightarrow> 0 | Some t \<Rightarrow> t) in
                   if is_used result then
                    (let expiresAt = js_number (first_used_at result) + 24 * 60 * 60 in
                     if now > expiresAt
                     then Respond (rejection 200 CARD_EXPIRED Expired cors)
                            [SelectCard cardKey, SelectCurrentTime]
                     else
                      (let remainingTime = expiresAt - now in
                       Respond (granted SESSION_RENEWED remainingTime (randomUUID e)
                                  remainingTime cors)
                         [SelectCard cardKey, SelectCurrentTime]))
                   else Activate cardKey now [SelectCard cardKey, SelectCurrentTime]))))"

definition fetch_cors_activate ::
  "request \<Rightarrow> string \<Rightarrow> int \<Rightarrow> db_call list \<Rightarrow> env \<Rightarrow> store \<Rightarrow> store handled" where
  "fetch_cors_activate request cardKey now made e table =
     (let expiresIn = 24 * 60 * 60 in
      if update_throws e
      then \<lparr>response = rejection 200 SERVER_ERROR (VerifyFailedWith D1_ERROR)
                         (corsHeaders request),
            db = table, calls = made @ [UpdateCard cardKey]\<rparr>
      else \<lparr>response = granted ACTIVATION_SUCCESS expiresIn (randomUUID e) expiresIn
                         (corsHeaders request),
            db = update_first_used table (update_now e) cardKey,
            calls = made @ [UpdateCard cardKey]\<rparr>)"

definition fetch_cors :: "request \<Rightarrow> env \<Rightarrow> store \<Rightarrow> store handled" where
  "fetch_cors request e table =
     (case fetch_cors_decide request e table of
        Respond r made \<Rightarrow> \<lparr>response = r, db = table, calls = made\<rparr>
      | Activate cardKey now made \<Rightarrow> fetch_cors_activate request cardKey now made e table)"

subsection \<open>Calls served one after another\<close>

text \<open>Each call runs to its end on the table the call before it left; the result lists
  what every call returned.\<close>

fun serve :: "(request \<Rightarrow> env \<Rightarrow> 's \<Rightarrow> 's handled) \<Rightarrow> (request \<times> env) list \<Rightarrow> 's \<Rightarrow> 's handled list" where
  "serve handler [] table = []"
| "serve handler ((request, e) # rest) table =
     (let r = handler request e table in r # serve handler rest (db r))"

subsection \<open>Sample inputs\<close>

definition key29 :: string where
  "key29 = ''AAAAA-BBBBB-CCCCC-DDDDD-EEEEE''"

definition key16 :: string where
  "key16 = ''AAAAABBBBBCCCCC1''"

definition post :: "string \<Rightarrow> request" where
  "post k =
     \<lparr>request_method = POST, origin = None, acr_method = None, acr_headers = None,
      json = Some (CardKey k)\<rparr>"

text \<open>An environment in which no database call throws: the clock reading of the
  \<open>SELECT\<close>, the clock reading of the branch (in seconds: \<open>Date.now()\<close> is 1000 times
  it, the database's second answer is it) and the clock reading of the \<open>UPDATE\<close>.\<close>

definition clocks :: "int \<Rightarrow> int \<Rightarrow> int \<Rightarrow> env" where
  "clocks sel now upd =
     \<lparr>select_now = sel, date_now = now * 1000, current_time = Some now, update_now = upd,
      randomUUID = ''token'', select_throws = False, current_time_throws = False,
      update_throws = False\<rparr>"

definition unused_row :: card_row where
  "unused_row = \<lparr>is_used = False, first_used_at = None\<rparr>"

definition used_row :: "int \<Rightarrow> card_row" where
  "used_row t = \<lparr>is_used = True, first_used_at = Some t\<rparr>"

subsection \<open>Vocabulary of the statements\<close>

text \<open>The request is a POST whose body carries the key \<open>k\<close>, and the schema accepts
  it: the call reaches the code after validation with \<open>cardKey = k\<close>.\<close>

definition resolves16 :: "request \<Rightarrow> string \<Rightarrow> bool" where
  "resolves16 request k =
     (request_method request = POST \<and> json request = Some (CardKey k) \<and>
      CardValidationSchema16 (CardKey k) = Inr k)"

definition resolves :: "request \<Rightarrow> string \<Rightarrow> bool" where
  "resolves request k =
     (request_method request = POST \<and> json request = Some (CardKey k) \<and>
      CardValidationSchema (CardKey k) = Inr k)"

text \<open>The branch clock of a call: \<open>Math.floor(Date.now() / 1000)\<close> in \<open>onRequest\<close> and
  \<open>fetch\<close>, the database's answer to the second query in the \<open>fetch\<close> with CORS
  headers.\<close>

definition js_now :: "env \<Rightarrow> int" where
  "js_now e = date_now e div 1000"

definition db_now :: "env \<Rightarrow> int" where
  "db_now e = (case current_time e of None \<Rightarrow> 0 | Some t \<Rightarrow> t)"

definition stamped_iff_used :: "card_row \<Rightarrow> bool" where
  "stamped_iff_used row = (first_used_at row \<noteq> None \<longleftrightarrow> is_used row)"

definition expires_in_of :: "response \<Rightarrow> int option" where
  "expires_in_of r = (case reply_of r of None \<Rightarrow> None | Some j \<Rightarrow> expires_in j)"

definition valid_of :: "response \<Rightarrow> bool option" where
  "valid_of r = map_option valid (reply_of r)"

definition max_age_of :: "response \<Rightarrow> int option" where
  "max_age_of r = map_option max_age (set_cookie r)"

definition activations :: "'s handled list \<Rightarrow> nat" where
  "activations rs =
     length (filter (\<lambda>r. code_of (response r) = Some ACTIVATION_SUCCESS) rs)"

definition writes :: "'s handled \<Rightarrow> bool" where
  "writes r = list_ex (\<lambda>c. case c of UpdateCard k \<Rightarrow> True | _ \<Rightarrow> False) (calls r)"

definition remaining :: "'s handled \<Rightarrow> int" where
  "remaining r = (case expires_in_of (response r) of None \<Rightarrow> 0 | Some n \<Rightarrow> n)"

section \<open>Properties\<close>

subsection \<open>Unfolding rules and shared lemmas\<close>

lemmas handler_defs =
  onRequest_def onRequest_decide_def onRequest_activate_def
  fetch_def fetch_decide_def fetch_activate_def
  fetch_cors_def fetch_cors_decide_def fetch_cors_activate_def

lemmas statement_defs =
  select_card_keys_def update_card_keys_def select_card_def read_filter_def
  select_card_cors_def read_filter_cors_def sql_truth_def sql_bool_def
  update_first_used_def js_number_def WINDOW_def strftime_s_def

lemmas reply_defs =
  code_of_def reply_of_def rejection_def granted_def method_not_allowed_def
  session_cookie_def json_headers_def expires_in_of_def valid_of_def max_age_of_def

lemmas sample_defs = post_def clocks_def unused_row_def used_row_def

lemmas vocabulary_defs = resolves16_def resolves_def js_now_def db_now_def writes_def

lemma key29_valid: "CardValidationSchema (CardKey key29) = Inr key29"
  by (simp add: CardValidationSchema_def card_pattern_def key29_def is_upper_alnum_def
      upt_conv_Cons)

lemma key16_valid: "CardValidationSchema16 (CardKey key16) = Inr key16"
  by (simp add: CardValidationSchema16_def key16_def is_upper_alnum_def)

lemma bad_format_rejected: "CardValidationSchema (CardKey ''bad-format'') = Inl PatternMismatch"
  by (simp add: CardValidationSchema_def card_pattern_def)

lemma bad_format_rejected16:
  "CardValidationSchema16 (CardKey ''bad-format'') = Inl PatternMismatch"
  by (simp add: CardValidationSchema16_def)

lemma resolves_post29: "resolves (post key29) key29"
  by (simp add: resolves_def post_def key29_valid)

lemma resolves_post16: "resolves16 (post key16) key16"
  by (simp add: resolves16_def post_def key16_valid)

lemma schema16_key: "CardValidationSchema16 data = Inr k \<Longrightarrow> data = CardKey k"
  by (auto simp: CardValidationSchema16_def split: json_value.splits if_splits)

lemma schema_key: "CardValidationSchema data = Inr k \<Longrightarrow> data = CardKey k"
  by (auto simp: CardValidationSchema_def split: json_value.splits if_splits)

text \<open>Calls served one after another: a property of the table that every call keeps
  gives a property of every result.\<close>

lemma serve_all:
  assumes step: "\<And>rq e t. P rq e \<Longrightarrow> I t \<Longrightarrow> I (db (h rq e t)) \<and> Q (h rq e t)"
  shows "I t \<Longrightarrow> \<forall>c\<in>set cs. P (fst c) (snd c) \<Longrightarrow> \<forall>r\<in>set (serve h cs t). Q r"
proof (induction cs arbitrary: t)
  case Nil
  then show ?case by simp
next
  case (Cons c cs)
  obtain rq e where c: "c = (rq, e)" by (cases c)
  from Cons.prems c have P: "P rq e" by simp
  from step[OF P Cons.prems(1)] have I': "I (db (h rq e t))" and Q: "Q (h rq e t)"
    by simp_all
  from Cons.prems(2) have "\<forall>c\<in>set cs. P (fst c) (snd c)" by simp
  from Cons.IH[OF I' this] Q show ?case by (simp add: c Let_def)
qed

lemma serve_map:
  assumes step: "\<And>rq e t. P rq e \<Longrightarrow> I t \<Longrightarrow> I (db (h rq e t)) \<and> f (h rq e t) = g (rq, e)"
  shows "I t \<Longrightarrow> \<forall>c\<in>set cs. P (fst c) (snd c) \<Longrightarrow> map f (serve h cs t) = map g cs"
proof (induction cs arbitrary: t)
  case Nil
  then show ?case by simp
next
  case (Cons c cs)
  obtain rq e where c: "c = (rq, e)" by (cases c)
  from Cons.prems c have P: "P rq e" by simp
  from step[OF P Cons.prems(1)]
  have I': "I (db (h rq e t))" and Q: "f (h rq e t) = g (rq, e)" by simp_all
  from Cons.prems(2) have "\<forall>c\<in>set cs. P (fst c) (snd c)" by simp
  from Cons.IH[OF I' this] Q show ?case by (simp add: c Let_def)
qed

lemma serve_length: "length (serve h cs t) = length cs"
  by (induction cs arbitrary: t) (auto simp: Let_def)

text \<open>What each handler does with a call for a key whose row is already stamped, when
  its reads do not throw. The read of the first \<open>fetch\<close> never returns a stamped row.\<close>

lemma onRequest_used:
  assumes "table k = Some row" "legacy_row.is_used row" "resolves16 rq k" "\<not> select_throws e"
  shows "onRequest rq e table =
     \<lparr>response =
        (if expires_at row > select_now e
         then if js_now e > expires_at row then rejection 200 CARD_EXPIRED Expired []
              else granted SESSION_RENEWED (expires_at row - js_now e) (randomUUID e)
                     (expires_at row - js_now e) []
         else rejection 200 INVALID_CARD InvalidOrExpired []),
      db = table, calls = [SelectCard k]\<rparr>"
  using assms
  by (simp add: handler_defs select_card_keys_def strftime_s_def vocabulary_defs Let_def)

lemma fetch_used:
  assumes "table k = Some row" "first_used_at row = Some u" "resolves rq k"
    "\<not> select_throws e"
  shows "fetch rq e table =
     \<lparr>response = rejection 200 INVALID_CARD InvalidOrExpired [], db = table,
      calls = [SelectCard k]\<rparr>"
  using assms by (simp add: handler_defs statement_defs vocabulary_defs Let_def)

lemma fetch_cors_used:
  assumes "table k = Some row" "is_used row" "first_used_at row = Some u" "resolves rq k"
    "\<not> select_throws e" "\<not> current_time_throws e"
  shows "fetch_cors rq e table =
     \<lparr>response =
        (if u + WINDOW \<noteq> select_now e
         then if db_now e > u + WINDOW then rejection 200 CARD_EXPIRED Expired (corsHeaders rq)
              else granted SESSION_RENEWED (u + WINDOW - db_now e) (randomUUID e)
                     (u + WINDOW - db_now e) (corsHeaders rq)
         else rejection 200 INVALID_CARD InvalidOrExpired (corsHeaders rq)),
      db = table,
      calls = (if u + WINDOW \<noteq> select_now e then [SelectCard k, SelectCurrentTime]
               else [SelectCard k])\<rparr>"
  using assms by (simp add: handler_defs statement_defs vocabulary_defs Let_def)

subsection \<open>First activation\<close>

text \<open>
  Claim C2. On first activation of a never-used, non-expired code the response is
  ACTIVATION_SUCCESS with \<open>expires_in\<close> equal to the window, the cookie's Max-Age equal
  to the same value, and the expiry recorded in the table equal to the activation time
  plus the same window.

  \<open>onRequest\<close> does not do this: it answers \<open>expires_in = 2592000\<close> and
  \<open>Max-Age=2592000\<close> (30 days) and stores \<open>expires_at = now + 86400\<close> (24 hours), on the
  line its own comment marks as the 30-day validity. Evaluated at a never-used key
  activated at second 1000:
\<close>

theorem onRequest_activation_window_mismatch:
  "expires_in_of (response (onRequest (post key16) (clocks 1000 1000 1000)
       [key16 \<mapsto> \<lparr>expires_at = 5000000, is_used = False, activated_at = None\<rparr>]))
     = Some 2592000
   \<and> max_age_of (response (onRequest (post key16) (clocks 1000 1000 1000)
       [key16 \<mapsto> \<lparr>expires_at = 5000000, is_used = False, activated_at = None\<rparr>]))
     = Some 2592000
   \<and> code_of (response (onRequest (post key16) (clocks 1000 1000 1000)
       [key16 \<mapsto> \<lparr>expires_at = 5000000, is_used = False, activated_at = None\<rparr>]))
     = Some ACTIVATION_SUCCESS
   \<and> db (onRequest (post key16) (clocks 1000 1000 1000)
       [key16 \<mapsto> \<lparr>expires_at = 5000000, is_used = False, activated_at = None\<rparr>]) key16
     = Some \<lparr>expires_at = 1000 + 86400, is_used = True, activated_at = Some 1000\<rparr>"
  by (simp add: handler_defs statement_defs sample_defs reply_defs key16_valid)

text \<open>The \<open>fetch\<close> with CORS headers keeps the three values together: the answer and
  the cookie carry 86400, and the expiry derived from the stamped row is the time of
  the \<open>UPDATE\<close> plus 86400.\<close>

lemma fetch_cors_activation:
  assumes "table k = Some row" "\<not> is_used row" "first_used_at row = None" "resolves rq k"
    "\<not> select_throws e" "\<not> current_time_throws e" "\<not> update_throws e"
  shows "fetch_cors rq e table =
     \<lparr>response = granted ACTIVATION_SUCCESS WINDOW (randomUUID e) WINDOW (corsHeaders rq),
      db = table(k \<mapsto> \<lparr>is_used = True, first_used_at = Some (update_now e)\<rparr>),
      calls = [SelectCard k, SelectCurrentTime, UpdateCard k]\<rparr>"
  using assms by (cases row) (simp add: handler_defs statement_defs vocabulary_defs Let_def)

subsection \<open>Codes the read does not return\<close>

lemma onRequest_filtered_out:
  assumes "resolves16 rq k" "\<not> select_throws e" "select_card_keys table k (select_now e) = None"
  shows "onRequest rq e table =
     \<lparr>response = rejection 200 INVALID_CARD InvalidOrExpired [], db = table,
      calls = [SelectCard k]\<rparr>"
  using assms by (simp add: handler_defs vocabulary_defs)

lemma fetch_filtered_out:
  assumes "resolves rq k" "\<not> select_throws e" "select_card table k (select_now e) = None"
  shows "fetch rq e table =
     \<lparr>response = rejection 200 INVALID_CARD InvalidOrExpired [], db = table,
      calls = [SelectCard k]\<rparr>"
  using assms by (simp add: handler_defs vocabulary_defs)

lemma fetch_cors_filtered_out:
  assumes "resolves rq k" "\<not> select_throws e" "select_card_cors table k (select_now e) = None"
  shows "fetch_cors rq e table =
     \<lparr>response = rejection 200 INVALID_CARD InvalidOrExpired (corsHeaders rq), db = table,
      calls = [SelectCard k]\<rparr>"
  using assms by (simp add: handler_defs vocabulary_defs)

lemma select_absent:
  "lt k = None \<Longrightarrow> select_card_keys lt k n = None"
  "t k = None \<Longrightarrow> select_card t k n = None"
  "t k = None \<Longrightarrow> select_card_cors t k n = None"
  by (simp_all add: statement_defs)

text \<open>In \<open>onRequest\<close> and in the first \<open>fetch\<close> a code whose window is over at the clock
  of the read is answered as an unknown code is.\<close>

lemma expired_reads_as_unknown:
  "resolves16 rq16 k16 \<Longrightarrow> \<not> select_throws e1 \<Longrightarrow> \<not> select_throws e2 \<Longrightarrow>
     absent16 k16 = None \<Longrightarrow> present16 k16 = Some lrow \<Longrightarrow>
     expires_at lrow \<le> select_now e2 \<Longrightarrow>
     response (onRequest rq16 e1 absent16) = response (onRequest rq16 e2 present16) \<and>
     code_of (response (onRequest rq16 e2 present16)) = Some INVALID_CARD"
  "resolves rq k \<Longrightarrow> \<not> select_throws e1 \<Longrightarrow> \<not> select_throws e2 \<Longrightarrow>
     absent k = None \<Longrightarrow> present k = Some row \<Longrightarrow> first_used_at row = Some u \<Longrightarrow>
     response (fetch rq e1 absent) = response (fetch rq e2 present) \<and>
     code_of (response (fetch rq e2 present)) = Some INVALID_CARD"
  by (simp_all add: onRequest_filtered_out [where k = k16] fetch_filtered_out [where k = k]
      statement_defs reply_defs)

text \<open>
  Claim C5 (unknown-code opacity). Resolving a code that is absent from the table and
  resolving a code that is present and expired give the same INVALID_CARD response; the
  response does not tell the two apart.

  In the \<open>fetch\<close> with CORS headers the read drops a used row only at the one second
  \<open>first_used_at + 86400 = now\<close> (the filter of claim C10), so an expired code reaches
  the branch and is answered CARD_EXPIRED where an unknown code is answered
  INVALID_CARD. A row activated at second 0 and an empty table, every clock at second
  86401:
\<close>

theorem fetch_cors_tells_expired_from_unknown:
  "code_of (response (fetch_cors (post key29) (clocks 86401 86401 86401) Map.empty))
     = Some INVALID_CARD
   \<and> code_of (response (fetch_cors (post key29) (clocks 86401 86401 86401)
         [key29 \<mapsto> used_row 0])) = Some CARD_EXPIRED
   \<and> response (fetch_cors (post key29) (clocks 86401 86401 86401) Map.empty)
     \<noteq> response (fetch_cors (post key29) (clocks 86401 86401 86401) [key29 \<mapsto> used_row 0])"
  by (simp add: handler_defs statement_defs sample_defs reply_defs key29_valid)

subsection \<open>Renewal\<close>

lemma renewal_remaining:
  "resolves16 rq k \<Longrightarrow> lt k = Some lrow \<Longrightarrow>
     code_of (response (onRequest rq e lt)) = Some SESSION_RENEWED \<Longrightarrow>
     expires_in_of (response (onRequest rq e lt)) = Some (expires_at lrow - js_now e) \<and>
     0 \<le> expires_at lrow - js_now e"
  "resolves rq k \<Longrightarrow> t k = Some row \<Longrightarrow>
     code_of (response (fetch rq e t)) = Some SESSION_RENEWED \<Longrightarrow>
     expires_in_of (response (fetch rq e t))
       = Some (js_number (first_used_at row) + WINDOW - js_now e) \<and>
     0 \<le> js_number (first_used_at row) + WINDOW - js_now e"
  "resolves rq k \<Longrightarrow> t k = Some row \<Longrightarrow>
     code_of (response (fetch_cors rq e t)) = Some SESSION_RENEWED \<Longrightarrow>
     expires_in_of (response (fetch_cors rq e t))
       = Some (js_number (first_used_at row) + WINDOW - db_now e) \<and>
     0 \<le> js_number (first_used_at row) + WINDOW - db_now e"
  by (auto simp: handler_defs select_card_keys_def select_card_def select_card_cors_def
      WINDOW_def reply_defs vocabulary_defs Let_def
      split: if_splits option.splits sum.splits)

text \<open>
  Claim C6. On the renewal path \<open>expires_in\<close> is \<open>first_used_at + WINDOW - now\<close>,
  and it is strictly greater than 0 for every SESSION_RENEWED response.

  The first half holds (\<open>renewal_remaining\<close>), the second does not: the read keeps a
  row while \<open>expires_at > now\<close>, the branch rejects it only when \<open>now > expires_at\<close>,
  and the branch reads the clock again. A row activated at second 0, read at second
  86399 and judged at second 86400 is renewed with nothing left, and the cookie goes out
  with \<open>Max-Age=0\<close>.
\<close>

theorem renewal_with_nothing_left:
  "code_of (response (fetch_cors (post key29) (clocks 86399 86400 86400) [key29 \<mapsto> used_row 0]))
     = Some SESSION_RENEWED
   \<and> expires_in_of (response (fetch_cors (post key29) (clocks 86399 86400 86400)
         [key29 \<mapsto> used_row 0])) = Some 0
   \<and> max_age_of (response (fetch_cors (post key29) (clocks 86399 86400 86400)
         [key29 \<mapsto> used_row 0])) = Some 0
   \<and> code_of (response (onRequest (post key16) (clocks 86399 86400 86400)
         [key16 \<mapsto> \<lparr>expires_at = 86400, is_used = True, activated_at = Some 0\<rparr>]))
     = Some SESSION_RENEWED
   \<and> expires_in_of (response (onRequest (post key16) (clocks 86399 86400 86400)
         [key16 \<mapsto> \<lparr>expires_at = 86400, is_used = True, activated_at = Some 0\<rparr>]))
     = Some 0"
  by (simp add: handler_defs statement_defs sample_defs reply_defs key29_valid key16_valid)

text \<open>
  Claim C4. For an already-activated, non-expired code every call answers
  SESSION_RENEWED, writes nothing, changes no stored field, and \<open>expires_in\<close> strictly
  decreases across successive calls.

  The last part fails as stated: the clock counts whole seconds, so two calls within one
  second get the same \<open>expires_in\<close>. Two calls of \<open>onRequest\<close> half a second apart, and
  two calls of the \<open>fetch\<close> with CORS headers within one second of the database clock:
\<close>

theorem renewal_within_one_second_counterexample:
  "code_of (response (serve onRequest
        [(post key16, clocks 100 100 100),
         (post key16, (clocks 100 100 100)\<lparr>date_now := 100500\<rparr>)]
        [key16 \<mapsto> \<lparr>expires_at = 86400, is_used = True, activated_at = Some 0\<rparr>] ! 0))
     = Some SESSION_RENEWED
   \<and> code_of (response (serve onRequest
        [(post key16, clocks 100 100 100),
         (post key16, (clocks 100 100 100)\<lparr>date_now := 100500\<rparr>)]
        [key16 \<mapsto> \<lparr>expires_at = 86400, is_used = True, activated_at = Some 0\<rparr>] ! 1))
     = Some SESSION_RENEWED
   \<and> expires_in_of (response (serve onRequest
        [(post key16, clocks 100 100 100),
         (post key16, (clocks 100 100 100)\<lparr>date_now := 100500\<rparr>)]
        [key16 \<mapsto> \<lparr>expires_at = 86400, is_used = True, activated_at = Some 0\<rparr>] ! 0))
     = Some 86300
   \<and> expires_in_of (response (serve onRequest
        [(post key16, clocks 100 100 100),
         (post key16, (clocks 100 100 100)\<lparr>date_now := 100500\<rparr>)]
        [key16 \<mapsto> \<lparr>expires_at = 86400, is_used = True, activated_at = Some 0\<rparr>] ! 1))
     = Some 86300
   \<and> expires_in_of (response (serve fetch_cors
        [(post key29, clocks 100 100 100), (post key29, clocks 100 100 100)]
        [key29 \<mapsto> used_row 0] ! 0)) = Some 86300
   \<and> expires_in_of (response (serve fetch_cors
        [(post key29, clocks 100 100 100), (post key29, clocks 100 100 100)]
        [key29 \<mapsto> used_row 0] ! 1)) = Some 86300"
  by (simp add: handler_defs statement_defs sample_defs reply_defs key29_valid key16_valid
      Let_def)

lemma remaining_nth:
  assumes "map (\<lambda>r. expires_in_of (response r)) rs = map (\<lambda>c. Some (g c)) cs" "i < length cs"
  shows "remaining (rs ! i) = g (cs ! i)"
proof -
  from assms(1) have len: "length rs = length cs"
    by (rule map_eq_imp_length_eq)
  from assms(1) have "map (\<lambda>r. expires_in_of (response r)) rs ! i = map (\<lambda>c. Some (g c)) cs ! i"
    by simp
  with assms(2) len show ?thesis
    by (simp add: remaining_def)
qed

lemma onRequest_renewal_step:
  assumes "lt k = Some lrow" "legacy_row.is_used lrow" "resolves16 rq k" "\<not> select_throws e"
    "select_now e < expires_at lrow" "js_now e \<le> expires_at lrow"
  shows "db (onRequest rq e lt) = lt \<and> \<not> writes (onRequest rq e lt) \<and>
    code_of (response (onRequest rq e lt)) = Some SESSION_RENEWED \<and>
    expires_in_of (response (onRequest rq e lt)) = Some (expires_at lrow - js_now e)"
  using assms by (simp add: onRequest_used [where k = k and row = lrow] reply_defs writes_def)

lemma fetch_cors_renewal_step:
  assumes "t k = Some row" "is_used row" "first_used_at row = Some u" "resolves rq k"
    "\<not> select_throws e" "\<not> current_time_throws e" "select_now e < u + WINDOW"
    "db_now e \<le> u + WINDOW"
  shows "db (fetch_cors rq e t) = t \<and> \<not> writes (fetch_cors rq e t) \<and>
    code_of (response (fetch_cors rq e t)) = Some SESSION_RENEWED \<and>
    expires_in_of (response (fetch_cors rq e t)) = Some (u + WINDOW - db_now e)"
  using assms by (simp add: fetch_cors_used [where k = k and row = row] reply_defs writes_def)

lemma onRequest_renewals:
  assumes row: "lt k = Some lrow" "legacy_row.is_used lrow"
    and cs: "\<forall>c\<in>set cs. resolves16 (fst c) k \<and> \<not> select_throws (snd c) \<and>
          select_now (snd c) < expires_at lrow \<and> js_now (snd c) \<le> expires_at lrow"
  shows "\<forall>r\<in>set (serve onRequest cs lt).
        db r = lt \<and> \<not> writes r \<and> code_of (response r) = Some SESSION_RENEWED"
    and "map (\<lambda>r. expires_in_of (response r)) (serve onRequest cs lt)
          = map (\<lambda>c. Some (expires_at lrow - js_now (snd c))) cs"
proof -
  let ?P = "\<lambda>rq e. resolves16 rq k \<and> \<not> select_throws e \<and>
          select_now e < expires_at lrow \<and> js_now e \<le> expires_at lrow"
  have step: "db (onRequest rq e x) = lt \<and> \<not> writes (onRequest rq e x) \<and>
      code_of (response (onRequest rq e x)) = Some SESSION_RENEWED \<and>
      expires_in_of (response (onRequest rq e x)) = Some (expires_at lrow - js_now e)"
    if "?P rq e" "x = lt" for rq e x
    using that row onRequest_renewal_step [of lt k lrow rq e] by simp
  show "\<forall>r\<in>set (serve onRequest cs lt).
        db r = lt \<and> \<not> writes r \<and> code_of (response r) = Some SESSION_RENEWED"
    by (rule serve_all [where I = "\<lambda>x. x = lt" and P = ?P]) (use step cs in simp_all)
  show "map (\<lambda>r. expires_in_of (response r)) (serve onRequest cs lt)
          = map (\<lambda>c. Some (expires_at lrow - js_now (snd c))) cs"
    by (rule serve_map [where I = "\<lambda>x. x = lt" and P = ?P]) (use step cs in simp_all)
qed

lemma fetch_cors_renewals:
  assumes row: "t k = Some row" "is_used row" "first_used_at row = Some u"
    and cs: "\<forall>c\<in>set cs. resolves (fst c) k \<and> \<not> select_throws (snd c) \<and>
          \<not> current_time_throws (snd c) \<and>
          select_now (snd c) < u + WINDOW \<and> db_now (snd c) \<le> u + WINDOW"
  shows "\<forall>r\<in>set (serve fetch_cors cs t).
        db r = t \<and> \<not> writes r \<and> code_of (response r) = Some SESSION_RENEWED"
    and "map (\<lambda>r. expires_in_of (response r)) (serve fetch_cors cs t)
          = map (\<lambda>c. Some (u + WINDOW - db_now (snd c))) cs"
proof -
  let ?P = "\<lambda>rq e. resolves rq k \<and> \<not> select_throws e \<and> \<not> current_time_throws e \<and>
          select_now e < u + WINDOW \<and> db_now e \<le> u + WINDOW"
  have step: "db (fetch_cors rq e x) = t \<and> \<not> writes (fetch_cors rq e x) \<and>
      code_of (response (fetch_cors rq e x)) = Some SESSION_RENEWED \<and>
      expires_in_of (response (fetch_cors rq e x)) = Some (u + WINDOW - db_now e)"
    if "?P rq e" "x = t" for rq e x
    using that row fetch_cors_renewal_step [of t k row u rq e] by simp
  show "\<forall>r\<in>set (serve fetch_cors cs t).
        db r = t \<and> \<not> writes r \<and> code_of (response r) = Some SESSION_RENEWED"
    by (rule serve_all [where I = "\<lambda>x. x = t" and P = ?P]) (use step cs in simp_all)
  show "map (\<lambda>r. expires_in_of (response r)) (serve fetch_cors cs t)
          = map (\<lambda>c. Some (u + WINDOW - db_now (snd c))) cs"
    by (rule serve_map [where I = "\<lambda>x. x = t" and P = ?P]) (use step cs in simp_all)
qed

text \<open>
  Claim C4, amended. In \<open>onRequest\<close> and in the \<open>fetch\<close> with CORS headers, for an
  activated code that neither clock reading of a call finds past its window, every call
  answers SESSION_RENEWED, makes no \<open>UPDATE\<close> and leaves the table as it was;
  \<open>expires_in\<close> is the stored expiry minus the branch clock of the call, so across
  successive calls it does not grow when the clock does not go back and it strictly
  decreases between calls whose clock readings differ.
\<close>

theorem renewal_reads_only:
  "(lt k16 = Some lrow \<and> legacy_row.is_used lrow \<and>
      (\<forall>c\<in>set cs. resolves16 (fst c) k16 \<and> \<not> select_throws (snd c) \<and>
          select_now (snd c) < expires_at lrow \<and> js_now (snd c) \<le> expires_at lrow)
    \<longrightarrow> (\<forall>r\<in>set (serve onRequest cs lt).
          db r = lt \<and> \<not> writes r \<and> code_of (response r) = Some SESSION_RENEWED)
      \<and> map (\<lambda>r. expires_in_of (response r)) (serve onRequest cs lt)
          = map (\<lambda>c. Some (expires_at lrow - js_now (snd c))) cs
      \<and> (\<forall>i j. i < j \<and> j < length cs \<longrightarrow>
            (js_now (snd (cs ! i)) \<le> js_now (snd (cs ! j)) \<longrightarrow>
               remaining (serve onRequest cs lt ! j) \<le> remaining (serve onRequest cs lt ! i)) \<and>
            (js_now (snd (cs ! i)) < js_now (snd (cs ! j)) \<longrightarrow>
               remaining (serve onRequest cs lt ! j) < remaining (serve onRequest cs lt ! i))))
   \<and> (t k = Some row \<and> is_used row \<and> first_used_at row = Some u \<and>
      (\<forall>c\<in>set cs. resolves (fst c) k \<and> \<not> select_throws (snd c) \<and>
          \<not> current_time_throws (snd c) \<and>
          select_now (snd c) < u + WINDOW \<and> db_now (snd c) \<le> u + WINDOW)
    \<longrightarrow> (\<forall>r\<in>set (serve fetch_cors cs t).
          db r = t \<and> \<not> writes r \<and> code_of (response r) = Some SESSION_RENEWED)
      \<and> map (\<lambda>r. expires_in_of (response r)) (serve fetch_cors cs t)
          = map (\<lambda>c. Some (u + WINDOW - db_now (snd c))) cs
      \<and> (\<forall>i j. i < j \<and> j < length cs \<longrightarrow>
            (db_now (snd (cs ! i)) \<le> db_now (snd (cs ! j)) \<longrightarrow>
               remaining (serve fetch_cors cs t ! j) \<le> remaining (serve fetch_cors cs t ! i)) \<and>
            (db_now (snd (cs ! i)) < db_now (snd (cs ! j)) \<longrightarrow>
               remaining (serve fetch_cors cs t ! j) < remaining (serve fetch_cors cs t ! i))))"
proof (intro conjI impI allI; (elim conjE)?)
  assume row: "lt k16 = Some lrow" "legacy_row.is_used lrow"
    and cs: "\<forall>c\<in>set cs. resolves16 (fst c) k16 \<and> \<not> select_throws (snd c) \<and>
          select_now (snd c) < expires_at lrow \<and> js_now (snd c) \<le> expires_at lrow"
  note m = onRequest_renewals(2) [of lt k16 lrow cs, OF row cs]
  show "\<forall>r\<in>set (serve onRequest cs lt).
          db r = lt \<and> \<not> writes r \<and> code_of (response r) = Some SESSION_RENEWED"
    by (rule onRequest_renewals(1) [of lt k16 lrow cs, OF row cs])
  show "map (\<lambda>r. expires_in_of (response r)) (serve onRequest cs lt)
          = map (\<lambda>c. Some (expires_at lrow - js_now (snd c))) cs"
    by (rule m)
  fix i j
  assume ij: "i < j" "j < length cs"
  then have r: "remaining (serve onRequest cs lt ! i) = expires_at lrow - js_now (snd (cs ! i))"
      "remaining (serve onRequest cs lt ! j) = expires_at lrow - js_now (snd (cs ! j))"
    using remaining_nth [OF m] by simp_all
  show "remaining (serve onRequest cs lt ! j) \<le> remaining (serve onRequest cs lt ! i)"
    if "js_now (snd (cs ! i)) \<le> js_now (snd (cs ! j))"
    using that r by simp
  show "remaining (serve onRequest cs lt ! j) < remaining (serve onRequest cs lt ! i)"
    if "js_now (snd (cs ! i)) < js_now (snd (cs ! j))"
    using that r by simp
next
  assume row: "t k = Some row" "is_used row" "first_used_at row = Some u"
    and cs: "\<forall>c\<in>set cs. resolves (fst c) k \<and> \<not> select_throws (snd c) \<and>
          \<not> current_time_throws (snd c) \<and>
          select_now (snd c) < u + WINDOW \<and> db_now (snd c) \<le> u + WINDOW"
  note m = fetch_cors_renewals(2) [of t k row u cs, OF row cs]
  show "\<forall>r\<in>set (serve fetch_cors cs t).
          db r = t \<and> \<not> writes r \<and> code_of (response r) = Some SESSION_RENEWED"
    by (rule fetch_cors_renewals(1) [of t k row u cs, OF row cs])
  show "map (\<lambda>r. expires_in_of (response r)) (serve fetch_cors cs t)
          = map (\<lambda>c. Some (u + WINDOW - db_now (snd c))) cs"
    by (rule m)
  fix i j
  assume ij: "i < j" "j < length cs"
  then have r: "remaining (serve fetch_cors cs t ! i) = u + WINDOW - db_now (snd (cs ! i))"
      "remaining (serve fetch_cors cs t ! j) = u + WINDOW - db_now (snd (cs ! j))"
    using remaining_nth [OF m] by simp_all
  show "remaining (serve fetch_cors cs t ! j) \<le> remaining (serve fetch_cors cs t ! i)"
    if "db_now (snd (cs ! i)) \<le> db_now (snd (cs ! j))"
    using that r by simp
  show "remaining (serve fetch_cors cs t ! j) < remaining (serve fetch_cors cs t ! i)"
    if "db_now (snd (cs ! i)) < db_now (snd (cs ! j))"
    using that r by simp
qed

text \<open>The theorem at two calls, 100 and 200 seconds after the activation.\<close>

theorem renewal_reads_only_witness:
  "list_all (\<lambda>r.
        db r = [key16 \<mapsto> \<lparr>expires_at = 86400, is_used = True, activated_at = Some 0\<rparr>] \<and>
        \<not> writes r \<and> code_of (response r) = Some SESSION_RENEWED)
      (serve onRequest
        [(post key16, clocks 100 100 100), (post key16, clocks 200 200 200)]
        [key16 \<mapsto> \<lparr>expires_at = 86400, is_used = True, activated_at = Some 0\<rparr>])
   \<and> map (\<lambda>r. expires_in_of (response r)) (serve onRequest
        [(post key16, clocks 100 100 100), (post key16, clocks 200 200 200)]
        [key16 \<mapsto> \<lparr>expires_at = 86400, is_used = True, activated_at = Some 0\<rparr>])
      = [Some 86300, Some 86200]
   \<and> remaining (serve onRequest
        [(post key16, clocks 100 100 100), (post key16, clocks 200 200 200)]
        [key16 \<mapsto> \<lparr>expires_at = 86400, is_used = True, activated_at = Some 0\<rparr>] ! 1)
      < remaining (serve onRequest
        [(post key16, clocks 100 100 100), (post key16, clocks 200 200 200)]
        [key16 \<mapsto> \<lparr>expires_at = 86400, is_used = True, activated_at = Some 0\<rparr>] ! 0)
   \<and> list_all (\<lambda>r.
        db r = [key29 \<mapsto> used_row 0] \<and>
        \<not> writes r \<and> code_of (response r) = Some SESSION_RENEWED)
      (serve fetch_cors
        [(post key29, clocks 100 100 100), (post key29, clocks 200 200 200)]
        [key29 \<mapsto> used_row 0])
   \<and> map (\<lambda>r. expires_in_of (response r)) (serve fetch_cors
        [(post key29, clocks 100 100 100), (post key29, clocks 200 200 200)]
        [key29 \<mapsto> used_row 0])
      = [Some 86300, Some 86200]
   \<and> remaining (serve fetch_cors
        [(post key29, clocks 100 100 100), (post key29, clocks 200 200 200)]
        [key29 \<mapsto> used_row 0] ! 1)
      < remaining (serve fetch_cors
        [(post key29, clocks 100 100 100), (post key29, clocks 200 200 200)]
        [key29 \<mapsto> used_row 0] ! 0)"
proof -
  let ?lrow = "\<lparr>expires_at = 86400, is_used = True, activated_at = Some 0\<rparr>"
  let ?cs16 = "[(post key16, clocks 100 100 100), (post key16, clocks 200 200 200)]"
  let ?cs = "[(post key29, clocks 100 100 100), (post key29, clocks 200 200 200)]"
  note legacy = renewal_reads_only [of "[key16 \<mapsto> ?lrow]" key16 ?lrow ?cs16
      Map.empty key29 "used_row 0" 0]
  note derived = renewal_reads_only [of Map.empty key16 ?lrow ?cs
      "[key29 \<mapsto> used_row 0]" key29 "used_row 0" 0]
  have a: "[key16 \<mapsto> ?lrow] key16 = Some ?lrow \<and> legacy_row.is_used ?lrow \<and>
      (\<forall>c\<in>set ?cs16. resolves16 (fst c) key16 \<and> \<not> select_throws (snd c) \<and>
          select_now (snd c) < expires_at ?lrow \<and> js_now (snd c) \<le> expires_at ?lrow)"
    by (simp add: resolves_post16 clocks_def js_now_def)
  have c: "[key29 \<mapsto> used_row 0] key29 = Some (used_row 0) \<and> is_used (used_row 0) \<and>
      first_used_at (used_row 0) = Some 0 \<and>
      (\<forall>c\<in>set ?cs. resolves (fst c) key29 \<and> \<not> select_throws (snd c) \<and>
          \<not> current_time_throws (snd c) \<and>
          select_now (snd c) < 0 + WINDOW \<and> db_now (snd c) \<le> 0 + WINDOW)"
    by (simp add: resolves_post29 clocks_def db_now_def used_row_def WINDOW_def)
  note A = legacy [THEN conjunct1, THEN mp, OF a]
  note C = derived [THEN conjunct2, THEN mp, OF c]
  have ga: "map (\<lambda>c. Some (expires_at ?lrow - js_now (snd c))) ?cs16 = [Some 86300, Some 86200]"
    by (simp add: clocks_def js_now_def)
  have gc: "map (\<lambda>c. Some (0 + WINDOW - db_now (snd c))) ?cs = [Some 86300, Some 86200]"
    by (simp add: clocks_def db_now_def WINDOW_def)
  have later16: "(0::nat) < 1 \<and> 1 < length ?cs16"
    by simp
  have later: "(0::nat) < 1 \<and> 1 < length ?cs"
    by simp
  have clock16: "js_now (snd (?cs16 ! 0)) < js_now (snd (?cs16 ! 1))"
    by (simp add: clocks_def js_now_def)
  have clock: "db_now (snd (?cs ! 0)) < db_now (snd (?cs ! 1))"
    by (simp add: clocks_def db_now_def)
  from list_all_iff [THEN iffD2, OF A [THEN conjunct1]]
    trans [OF A [THEN conjunct2, THEN conjunct1] ga]
    A [THEN conjunct2, THEN conjunct2, THEN spec, THEN spec, THEN mp, OF later16,
      THEN conjunct2, THEN mp, OF clock16]
    list_all_iff [THEN iffD2, OF C [THEN conjunct1]]
    trans [OF C [THEN conjunct2, THEN conjunct1] gc]
    C [THEN conjunct2, THEN conjunct2, THEN spec, THEN spec, THEN mp, OF later,
      THEN conjunct2, THEN mp, OF clock]
  show ?thesis
    by - (intro conjI; assumption)
qed

subsection \<open>Rejected input\<close>

lemma rejected_input:
  assumes "request_method rq = POST" "json rq = Some data"
  shows "CardValidationSchema16 data = Inl issue \<Longrightarrow>
      onRequest rq e lt =
        \<lparr>response = rejection 400 INVALID_INPUT BadFormat16 [], db = lt, calls = []\<rparr>"
    and "CardValidationSchema data = Inl issue \<Longrightarrow>
      fetch rq e t =
        \<lparr>response = rejection 400 INVALID_INPUT (BadFormat issue) [], db = t, calls = []\<rparr>"
    and "CardValidationSchema data = Inl issue \<Longrightarrow>
      fetch_cors rq e t =
        \<lparr>response = rejection 200 INVALID_INPUT (BadFormat issue) (corsHeaders rq), db = t,
         calls = []\<rparr>"
  using assms by (simp_all add: handler_defs)

text \<open>
  Claim C7. A \<open>cardKey\<close> that violates the pattern is answered INVALID_INPUT with HTTP
  status 400, and no database call is made.

  No handler touches the database for such input, and \<open>onRequest\<close> and the first
  \<open>fetch\<close> answer with status 400 (\<open>rejected_input\<close>). The \<open>fetch\<close> with CORS headers
  builds the same body with \<open>new Response\<close> and no status, so the status is 200:
\<close>

theorem fetch_cors_bad_format_status:
  "code_of (response (fetch_cors (post ''bad-format'') (clocks 0 0 0) Map.empty))
     = Some INVALID_INPUT
   \<and> status (response (fetch_cors (post ''bad-format'') (clocks 0 0 0) Map.empty)) = 200
   \<and> calls (fetch_cors (post ''bad-format'') (clocks 0 0 0) Map.empty) = []
   \<and> status (response (fetch (post ''bad-format'') (clocks 0 0 0) Map.empty)) = 400
   \<and> status (response (onRequest (post ''bad-format'') (clocks 0 0 0) Map.empty)) = 400"
  by (simp add: handler_defs reply_defs post_def bad_format_rejected bad_format_rejected16)

subsection \<open>Rejections and faults\<close>

text \<open>
  Claim C8. INVALID_CARD and CARD_EXPIRED are ordinary answers, status 200 with
  \<open>valid: false\<close>, given without any throw; in \<open>onRequest\<close> SERVER_ERROR comes with
  status 500, only after a throw (of \<open>request.json()\<close> or of a database call), and status
  500 comes only with SERVER_ERROR.
\<close>

theorem domain_rejections_are_ordinary_answers:
  "(code_of (response (onRequest rq e lt)) \<in> {Some INVALID_CARD, Some CARD_EXPIRED} \<longrightarrow>
      status (response (onRequest rq e lt)) = 200 \<and>
      valid_of (response (onRequest rq e lt)) = Some False \<and>
      json rq \<noteq> None \<and> \<not> select_throws e)
   \<and> (code_of (response (fetch rq e t)) \<in> {Some INVALID_CARD, Some CARD_EXPIRED} \<longrightarrow>
      status (response (fetch rq e t)) = 200 \<and>
      valid_of (response (fetch rq e t)) = Some False \<and>
      json rq \<noteq> None \<and> \<not> select_throws e)
   \<and> (code_of (response (fetch_cors rq e t)) \<in> {Some INVALID_CARD, Some CARD_EXPIRED} \<longrightarrow>
      status (response (fetch_cors rq e t)) = 200 \<and>
      valid_of (response (fetch_cors rq e t)) = Some False \<and>
      json rq \<noteq> None \<and> \<not> select_throws e)
   \<and> (code_of (response (onRequest rq e lt)) = Some SERVER_ERROR \<longrightarrow>
      status (response (onRequest rq e lt)) = 500 \<and>
      (json rq = None \<or> select_throws e \<or> update_throws e))
   \<and> (status (response (onRequest rq e lt)) = 500 \<longrightarrow>
      code_of (response (onRequest rq e lt)) = Some SERVER_ERROR)
   \<and> (json rq \<noteq> None \<and> \<not> select_throws e \<and> \<not> update_throws e \<longrightarrow>
      code_of (response (onRequest rq e lt)) \<noteq> Some SERVER_ERROR)"
proof (intro conjI)
  show "code_of (response (onRequest rq e lt)) \<in> {Some INVALID_CARD, Some CARD_EXPIRED} \<longrightarrow>
      status (response (onRequest rq e lt)) = 200 \<and>
      valid_of (response (onRequest rq e lt)) = Some False \<and>
      json rq \<noteq> None \<and> \<not> select_throws e"
    by (auto simp: handler_defs reply_defs Let_def split: if_splits option.splits sum.splits)
  show "code_of (response (fetch rq e t)) \<in> {Some INVALID_CARD, Some CARD_EXPIRED} \<longrightarrow>
      status (response (fetch rq e t)) = 200 \<and>
      valid_of (response (fetch rq e t)) = Some False \<and>
      json rq \<noteq> None \<and> \<not> select_throws e"
    by (auto simp: handler_defs reply_defs Let_def split: if_splits option.splits sum.splits)
  show "code_of (response (fetch_cors rq e t)) \<in> {Some INVALID_CARD, Some CARD_EXPIRED} \<longrightarrow>
      status (response (fetch_cors rq e t)) = 200 \<and>
      valid_of (response (fetch_cors rq e t)) = Some False \<and>
      json rq \<noteq> None \<and> \<not> select_throws e"
    by (auto simp: handler_defs reply_defs handleOptions_def Let_def
        split: if_splits option.splits sum.splits)
  show "code_of (response (onRequest rq e lt)) = Some SERVER_ERROR \<longrightarrow>
      status (response (onRequest rq e lt)) = 500 \<and>
      (json rq = None \<or> select_throws e \<or> update_throws e)"
    by (auto simp: handler_defs reply_defs Let_def split: if_splits option.splits sum.splits)
  show "status (response (onRequest rq e lt)) = 500 \<longrightarrow>
      code_of (response (onRequest rq e lt)) = Some SERVER_ERROR"
    by (auto simp: handler_defs reply_defs Let_def split: if_splits option.splits sum.splits)
  show "json rq \<noteq> None \<and> \<not> select_throws e \<and> \<not> update_throws e \<longrightarrow>
      code_of (response (onRequest rq e lt)) \<noteq> Some SERVER_ERROR"
    by (auto simp: handler_defs reply_defs Let_def split: if_splits option.splits sum.splits)
qed

text \<open>The theorem at an unknown key, at a stamped key in each \<open>fetch\<close> and at a read
  that throws.\<close>

theorem domain_rejections_are_ordinary_answers_witness:
  "code_of (response (onRequest (post key16) (clocks 7 7 7) Map.empty)) = Some INVALID_CARD
   \<and> status (response (onRequest (post key16) (clocks 7 7 7) Map.empty)) = 200
   \<and> valid_of (response (onRequest (post key16) (clocks 7 7 7) Map.empty)) = Some False
   \<and> code_of (response (fetch (post key29) (clocks 86399 90000 90000) [key29 \<mapsto> used_row 0]))
      = Some INVALID_CARD
   \<and> status (response (fetch (post key29) (clocks 86399 90000 90000) [key29 \<mapsto> used_row 0]))
      = 200
   \<and> code_of (response (fetch_cors (post key29) (clocks 86399 90000 90000)
        [key29 \<mapsto> used_row 0])) = Some CARD_EXPIRED
   \<and> status (response (fetch_cors (post key29) (clocks 86399 90000 90000)
        [key29 \<mapsto> used_row 0])) = 200
   \<and> code_of (response (onRequest (post key16) ((clocks 7 7 7)\<lparr>select_throws := True\<rparr>)
        Map.empty)) = Some SERVER_ERROR
   \<and> status (response (onRequest (post key16) ((clocks 7 7 7)\<lparr>select_throws := True\<rparr>)
        Map.empty)) = 500"
  using domain_rejections_are_ordinary_answers [of "post key16" "clocks 7 7 7" Map.empty
      Map.empty]
    domain_rejections_are_ordinary_answers [of "post key29" "clocks 86399 90000 90000"
      Map.empty "[key29 \<mapsto> used_row 0]"]
    domain_rejections_are_ordinary_answers [of "post key16"
      "(clocks 7 7 7)\<lparr>select_throws := True\<rparr>" Map.empty Map.empty]
  by (simp add: handler_defs statement_defs sample_defs reply_defs key29_valid key16_valid)

subsection \<open>One clock reading for the read and the branch\<close>

lemma one_clock_never_expired:
  "js_now e = select_now e \<Longrightarrow> code_of (response (onRequest rq e lt)) \<noteq> Some CARD_EXPIRED"
  "js_now e = select_now e \<Longrightarrow> \<forall>k row. t k = Some row \<longrightarrow> stamped_iff_used row \<Longrightarrow>
     code_of (response (fetch rq e t)) \<noteq> Some CARD_EXPIRED"
proof -
  show "js_now e = select_now e \<Longrightarrow> code_of (response (onRequest rq e lt)) \<noteq> Some CARD_EXPIRED"
    by (auto simp: handler_defs statement_defs reply_defs vocabulary_defs Let_def
        split: if_splits option.splits sum.splits)
  assume same: "js_now e = select_now e"
    and inv: "\<forall>k row. t k = Some row \<longrightarrow> stamped_iff_used row"
  show "code_of (response (fetch rq e t)) \<noteq> Some CARD_EXPIRED"
  proof
    assume expired: "code_of (response (fetch rq e t)) = Some CARD_EXPIRED"
    then obtain k row where row: "t k = Some row" "is_used row" "read_filter row (select_now e)"
        "js_now e > js_number (first_used_at row) + 24 * 60 * 60"
      by (auto simp: handler_defs select_card_def reply_defs vocabulary_defs Let_def
          split: if_splits option.splits sum.splits)
    from inv row(1,2) obtain u where "first_used_at row = Some u"
      by (auto simp: stamped_iff_used_def)
    with row(3) show False
      by (simp add: read_filter_def strftime_s_def)
  qed
qed

text \<open>
  Claim C10. When the branch uses the clock value the read filter used, CARD_EXPIRED is
  unreachable: a used row that passes the read already has
  \<open>first_used_at + WINDOW > now\<close>.

  This holds in \<open>onRequest\<close> and in the first \<open>fetch\<close> (\<open>one_clock_never_expired\<close>). In
  the \<open>fetch\<close> with CORS headers the filter compares the truth value of
  \<open>first_used_at IS NULL OR first_used_at + 86400 - now\<close> with 0, so it drops a row only
  when \<open>first_used_at + 86400 = now\<close>: a row activated at second 0 passes the read at
  second 86401 and the branch, at the same second, answers CARD_EXPIRED.
\<close>

theorem fetch_cors_expired_with_one_clock:
  "select_card_cors [key29 \<mapsto> used_row 0] key29 86401 = Some (used_row 0)
   \<and> code_of (response (fetch_cors (post key29) (clocks 86401 86401 86401)
         [key29 \<mapsto> used_row 0])) = Some CARD_EXPIRED"
  by (simp add: handler_defs statement_defs sample_defs reply_defs key29_valid)

subsection \<open>After the window\<close>

text \<open>
  Claim C3. Once \<open>now > first_used_at + WINDOW\<close>, every later call answers
  CARD_EXPIRED, and no call clears \<open>is_used\<close> or extends the expiry.

  The answer is not always CARD_EXPIRED: when the clock of the read is past the window
  too, the read drops the row and the answer is INVALID_CARD. A row activated at second
  0, every clock at second 86401:
\<close>

theorem expired_code_before_filter_counterexample:
  "code_of (response (fetch (post key29) (clocks 86401 86401 86401) [key29 \<mapsto> used_row 0]))
     = Some INVALID_CARD
   \<and> code_of (response (onRequest (post key16) (clocks 86401 86401 86401)
        [key16 \<mapsto> \<lparr>expires_at = 86400, is_used = True, activated_at = Some 0\<rparr>]))
     = Some INVALID_CARD"
  by (simp add: handler_defs statement_defs sample_defs reply_defs key29_valid key16_valid)

lemma onRequest_expired_step:
  assumes "lt k = Some lrow" "legacy_row.is_used lrow" "resolves16 rq k" "\<not> select_throws e"
    "expires_at lrow < js_now e"
  shows "db (onRequest rq e lt) = lt \<and> \<not> writes (onRequest rq e lt) \<and>
    code_of (response (onRequest rq e lt))
      = (if select_now e < expires_at lrow then Some CARD_EXPIRED else Some INVALID_CARD)"
  using assms by (simp add: onRequest_used [where k = k and row = lrow] reply_defs writes_def)

lemma fetch_expired_step:
  assumes "t k = Some row" "first_used_at row = Some u" "resolves rq k" "\<not> select_throws e"
  shows "db (fetch rq e t) = t \<and> \<not> writes (fetch rq e t) \<and>
    code_of (response (fetch rq e t)) = Some INVALID_CARD"
  using assms by (simp add: fetch_used [where k = k and row = row] reply_defs writes_def)

lemma fetch_cors_expired_step:
  assumes "t k = Some row" "is_used row" "first_used_at row = Some u" "resolves rq k"
    "\<not> select_throws e" "\<not> current_time_throws e" "u + WINDOW < db_now e"
  shows "db (fetch_cors rq e t) = t \<and> \<not> writes (fetch_cors rq e t) \<and>
    code_of (response (fetch_cors rq e t))
      = (if u + WINDOW \<noteq> select_now e then Some CARD_EXPIRED else Some INVALID_CARD)"
  using assms by (simp add: fetch_cors_used [where k = k and row = row] reply_defs writes_def)

text \<open>
  Claim C3, amended. For a used code whose window is over at the branch clock of every
  later call (\<open>now > first_used_at + WINDOW\<close>; in \<open>onRequest\<close>, \<open>now > expires_at\<close>), every
  call whose reads do not throw answers INVALID_CARD when the read drops the row and
  CARD_EXPIRED when the read returns it, makes no \<open>UPDATE\<close> and leaves the table as it
  was: \<open>is_used\<close> is never cleared and the expiry never extended, however many calls
  follow. The read of \<open>onRequest\<close> returns the row while \<open>expires_at\<close> is after its clock;
  the read of the first \<open>fetch\<close> returns no stamped row; the read of the \<open>fetch\<close> with
  CORS headers returns the row unless \<open>first_used_at + 86400\<close> is its clock.
\<close>

theorem expired_code_stays_rejected:
  "(lt k16 = Some lrow \<and> legacy_row.is_used lrow \<and>
      (\<forall>c\<in>set cs. resolves16 (fst c) k16 \<and> \<not> select_throws (snd c) \<and>
          expires_at lrow < js_now (snd c))
    \<longrightarrow> (\<forall>r\<in>set (serve onRequest cs lt). db r = lt \<and> \<not> writes r)
      \<and> map (\<lambda>r. code_of (response r)) (serve onRequest cs lt)
          = map (\<lambda>c. if select_now (snd c) < expires_at lrow
                      then Some CARD_EXPIRED else Some INVALID_CARD) cs)
   \<and> (t k = Some row \<and> is_used row \<and> first_used_at row = Some u \<and>
      (\<forall>c\<in>set cs. resolves (fst c) k \<and> \<not> select_throws (snd c) \<and>
          u + WINDOW < js_now (snd c))
    \<longrightarrow> (\<forall>r\<in>set (serve fetch cs t). db r = t \<and> \<not> writes r)
      \<and> map (\<lambda>r. code_of (response r)) (serve fetch cs t)
          = map (\<lambda>c. Some INVALID_CARD) cs)
   \<and> (t k = Some row \<and> is_used row \<and> first_used_at row = Some u \<and>
      (\<forall>c\<in>set cs. resolves (fst c) k \<and> \<not> select_throws (snd c) \<and>
          \<not> current_time_throws (snd c) \<and> u + WINDOW < db_now (snd c))
    \<longrightarrow> (\<forall>r\<in>set (serve fetch_cors cs t). db r = t \<and> \<not> writes r)
      \<and> map (\<lambda>r. code_of (response r)) (serve fetch_cors cs t)
          = map (\<lambda>c. if u + WINDOW \<noteq> select_now (snd c)
                      then Some CARD_EXPIRED else Some INVALID_CARD) cs)"
proof (intro conjI impI; elim conjE)
  assume row: "lt k16 = Some lrow" "legacy_row.is_used lrow"
    and cs: "\<forall>c\<in>set cs. resolves16 (fst c) k16 \<and> \<not> select_throws (snd c) \<and>
          expires_at lrow < js_now (snd c)"
  let ?P = "\<lambda>rq e. resolves16 rq k16 \<and> \<not> select_throws e \<and> expires_at lrow < js_now e"
  have step: "db (onRequest rq e x) = lt \<and> \<not> writes (onRequest rq e x) \<and>
      code_of (response (onRequest rq e x))
        = (if select_now e < expires_at lrow then Some CARD_EXPIRED else Some INVALID_CARD)"
    if "?P rq e" "x = lt" for rq e x
    using that row onRequest_expired_step [of lt k16 lrow rq e] by simp
  show "\<forall>r\<in>set (serve onRequest cs lt). db r = lt \<and> \<not> writes r"
    by (rule serve_all [where I = "\<lambda>x. x = lt" and P = ?P]) (use step cs in simp_all)
  show "map (\<lambda>r. code_of (response r)) (serve onRequest cs lt)
          = map (\<lambda>c. if select_now (snd c) < expires_at lrow
                      then Some CARD_EXPIRED else Some INVALID_CARD) cs"
    by (rule serve_map [where I = "\<lambda>x. x = lt" and P = ?P]) (use step cs in simp_all)
next
  assume row: "t k = Some row" "is_used row" "first_used_at row = Some u"
    and cs: "\<forall>c\<in>set cs. resolves (fst c) k \<and> \<not> select_throws (snd c) \<and>
          u + WINDOW < js_now (snd c)"
  let ?P = "\<lambda>rq e. resolves rq k \<and> \<not> select_throws e \<and> u + WINDOW < js_now e"
  have step: "db (fetch rq e x) = t \<and> \<not> writes (fetch rq e x) \<and>
      code_of (response (fetch rq e x)) = Some INVALID_CARD"
    if "?P rq e" "x = t" for rq e x
    using that row fetch_expired_step [of t k row u rq e] by simp
  show "\<forall>r\<in>set (serve fetch cs t). db r = t \<and> \<not> writes r"
    by (rule serve_all [where I = "\<lambda>x. x = t" and P = ?P]) (use step cs in simp_all)
  show "map (\<lambda>r. code_of (response r)) (serve fetch cs t) = map (\<lambda>c. Some INVALID_CARD) cs"
    by (rule serve_map [where I = "\<lambda>x. x = t" and P = ?P]) (use step cs in simp_all)
next
  assume row: "t k = Some row" "is_used row" "first_used_at row = Some u"
    and cs: "\<forall>c\<in>set cs. resolves (fst c) k \<and> \<not> select_throws (snd c) \<and>
          \<not> current_time_throws (snd c) \<and> u + WINDOW < db_now (snd c)"
  let ?P = "\<lambda>rq e. resolves rq k \<and> \<not> select_throws e \<and> \<not> current_time_throws e \<and>
          u + WINDOW < db_now e"
  have step: "db (fetch_cors rq e x) = t \<and> \<not> writes (fetch_cors rq e x) \<and>
      code_of (response (fetch_cors rq e x))
        = (if u + WINDOW \<noteq> select_now e then Some CARD_EXPIRED else Some INVALID_CARD)"
    if "?P rq e" "x = t" for rq e x
    using that row fetch_cors_expired_step [of t k row u rq e] by simp
  show "\<forall>r\<in>set (serve fetch_cors cs t). db r = t \<and> \<not> writes r"
    by (rule serve_all [where I = "\<lambda>x. x = t" and P = ?P]) (use step cs in simp_all)
  show "map (\<lambda>r. code_of (response r)) (serve fetch_cors cs t)
          = map (\<lambda>c. if u + WINDOW \<noteq> select_now (snd c)
                      then Some CARD_EXPIRED else Some INVALID_CARD) cs"
    by (rule serve_map [where I = "\<lambda>x. x = t" and P = ?P]) (use step cs in simp_all)
qed

text \<open>The theorem at two calls after the window: in \<open>onRequest\<close> one read after it and
  one read just before it, in the \<open>fetch\<close> with CORS headers one read after it and one
  read at its last second.\<close>

theorem expired_code_stays_rejected_witness:
  "list_all (\<lambda>r.
        db r = [key16 \<mapsto> \<lparr>expires_at = 86400, is_used = True, activated_at = Some 0\<rparr>] \<and>
        \<not> writes r)
      (serve onRequest
        [(post key16, clocks 86401 86401 86401), (post key16, clocks 86399 86401 86401)]
        [key16 \<mapsto> \<lparr>expires_at = 86400, is_used = True, activated_at = Some 0\<rparr>])
   \<and> map (\<lambda>r. code_of (response r))
      (serve onRequest
        [(post key16, clocks 86401 86401 86401), (post key16, clocks 86399 86401 86401)]
        [key16 \<mapsto> \<lparr>expires_at = 86400, is_used = True, activated_at = Some 0\<rparr>])
      = [Some INVALID_CARD, Some CARD_EXPIRED]
   \<and> list_all (\<lambda>r. db r = [key29 \<mapsto> used_row 0] \<and> \<not> writes r)
      (serve fetch
        [(post key29, clocks 86401 86401 86401), (post key29, clocks 86399 86401 86401)]
        [key29 \<mapsto> used_row 0])
   \<and> map (\<lambda>r. code_of (response r))
      (serve fetch
        [(post key29, clocks 86401 86401 86401), (post key29, clocks 86399 86401 86401)]
        [key29 \<mapsto> used_row 0])
      = [Some INVALID_CARD, Some INVALID_CARD]
   \<and> list_all (\<lambda>r. db r = [key29 \<mapsto> used_row 0] \<and> \<not> writes r)
      (serve fetch_cors
        [(post key29, clocks 86401 86401 86401), (post key29, clocks 86400 86401 86401)]
        [key29 \<mapsto> used_row 0])
   \<and> map (\<lambda>r. code_of (response r))
      (serve fetch_cors
        [(post key29, clocks 86401 86401 86401), (post key29, clocks 86400 86401 86401)]
        [key29 \<mapsto> used_row 0])
      = [Some CARD_EXPIRED, Some INVALID_CARD]"
proof -
  let ?lrow = "\<lparr>expires_at = 86400, is_used = True, activated_at = Some 0\<rparr>"
  let ?cs16 = "[(post key16, clocks 86401 86401 86401), (post key16, clocks 86399 86401 86401)]"
  let ?cs = "[(post key29, clocks 86401 86401 86401), (post key29, clocks 86399 86401 86401)]"
  let ?cs' = "[(post key29, clocks 86401 86401 86401), (post key29, clocks 86400 86401 86401)]"
  note legacy = expired_code_stays_rejected [of "[key16 \<mapsto> ?lrow]" key16 ?lrow ?cs16
      Map.empty key29 "used_row 0" 0]
  note first = expired_code_stays_rejected [of Map.empty key16 ?lrow ?cs
      "[key29 \<mapsto> used_row 0]" key29 "used_row 0" 0]
  note cors = expired_code_stays_rejected [of Map.empty key16 ?lrow ?cs'
      "[key29 \<mapsto> used_row 0]" key29 "used_row 0" 0]
  have a: "[key16 \<mapsto> ?lrow] key16 = Some ?lrow \<and> legacy_row.is_used ?lrow \<and>
      (\<forall>c\<in>set ?cs16. resolves16 (fst c) key16 \<and> \<not> select_throws (snd c) \<and>
          expires_at ?lrow < js_now (snd c))"
    by (simp add: resolves_post16 clocks_def js_now_def)
  have b: "[key29 \<mapsto> used_row 0] key29 = Some (used_row 0) \<and> is_used (used_row 0) \<and>
      first_used_at (used_row 0) = Some 0 \<and>
      (\<forall>c\<in>set ?cs. resolves (fst c) key29 \<and> \<not> select_throws (snd c) \<and>
          0 + WINDOW < js_now (snd c))"
    by (simp add: resolves_post29 clocks_def js_now_def used_row_def WINDOW_def)
  have c: "[key29 \<mapsto> used_row 0] key29 = Some (used_row 0) \<and> is_used (used_row 0) \<and>
      first_used_at (used_row 0) = Some 0 \<and>
      (\<forall>c\<in>set ?cs'. resolves (fst c) key29 \<and> \<not> select_throws (snd c) \<and>
          \<not> current_time_throws (snd c) \<and> 0 + WINDOW < db_now (snd c))"
    by (simp add: resolves_post29 clocks_def db_now_def used_row_def WINDOW_def)
  note A = legacy [THEN conjunct1, THEN mp, OF a]
  note B = first [THEN conjunct2, THEN conjunct1, THEN mp, OF b]
  note C = cors [THEN conjunct2, THEN conjunct2, THEN mp, OF c]
  have ga: "map (\<lambda>c. if select_now (snd c) < expires_at ?lrow
                      then Some CARD_EXPIRED else Some INVALID_CARD) ?cs16
      = [Some INVALID_CARD, Some CARD_EXPIRED]"
    by (simp add: clocks_def)
  have gb: "map (\<lambda>c. Some INVALID_CARD) ?cs = [Some INVALID_CARD, Some INVALID_CARD]"
    by simp
  have gc: "map (\<lambda>c. if 0 + WINDOW \<noteq> select_now (snd c)
                      then Some CARD_EXPIRED else Some INVALID_CARD) ?cs'
      = [Some CARD_EXPIRED, Some INVALID_CARD]"
    by (simp add: clocks_def WINDOW_def)
  from list_all_iff [THEN iffD2, OF A [THEN conjunct1]] trans [OF A [THEN conjunct2] ga]
    list_all_iff [THEN iffD2, OF B [THEN conjunct1]] trans [OF B [THEN conjunct2] gb]
    list_all_iff [THEN iffD2, OF C [THEN conjunct1]] trans [OF C [THEN conjunct2] gc]
  show ?thesis
    by - (intro conjI; assumption)
qed

subsection \<open>The stamp and the flag\<close>

lemma update_first_used_row:
  "t k = Some row \<Longrightarrow>
     update_first_used t n k k = Some \<lparr>is_used = True, first_used_at = Some n\<rparr>"
  by (cases row) (simp add: update_first_used_def)

lemma update_first_used_other:
  "k' \<noteq> k \<Longrightarrow> update_first_used t n k k' = t k'"
  by (simp add: update_first_used_def split: option.splits)

lemma update_card_keys_row:
  "lt k = Some lrow \<Longrightarrow>
     update_card_keys lt a x k k = Some \<lparr>expires_at = x, is_used = True, activated_at = Some a\<rparr>"
  by (cases lrow) (simp add: update_card_keys_def)

lemma update_card_keys_other:
  "k' \<noteq> k \<Longrightarrow> update_card_keys lt a x k k' = lt k'"
  by (simp add: update_card_keys_def split: option.splits)

lemma update_first_used_keeps:
  assumes "\<forall>k row. t k = Some row \<longrightarrow> stamped_iff_used row"
  shows "\<forall>k row. update_first_used t n k' k = Some row \<longrightarrow> stamped_iff_used row"
proof (intro allI impI)
  fix k row
  assume upd: "update_first_used t n k' k = Some row"
  show "stamped_iff_used row"
  proof (cases "k = k' \<and> t k' \<noteq> None")
    case True
    with upd update_first_used_row [of t k' _ n] show ?thesis
      by (auto simp: stamped_iff_used_def)
  next
    case False
    with upd have "t k = Some row"
      by (auto simp: update_first_used_def split: option.splits if_splits)
    with assms show ?thesis by blast
  qed
qed

lemma fetch_db_cases:
  "db (fetch rq e t) = t \<or>
   (code_of (response (fetch rq e t)) = Some ACTIVATION_SUCCESS \<and>
    (\<exists>k n. db (fetch rq e t) = update_first_used t n k))"
  by (auto simp: handler_defs Let_def split: option.splits sum.splits if_splits)

lemma fetch_cors_db_cases:
  "db (fetch_cors rq e t) = t \<or>
   (code_of (response (fetch_cors rq e t)) = Some ACTIVATION_SUCCESS \<and>
    (\<exists>k. db (fetch_cors rq e t) = update_first_used t (update_now e) k))"
  by (auto simp: handler_defs reply_defs Let_def split: option.splits sum.splits if_splits)

lemma onRequest_db_cases:
  "db (onRequest rq e lt) = lt \<or>
   (code_of (response (onRequest rq e lt)) = Some ACTIVATION_SUCCESS \<and>
    (\<exists>k. db (onRequest rq e lt) = update_card_keys lt (js_now e) (js_now e + 24 * 60 * 60) k))"
  by (auto simp: handler_defs reply_defs js_now_def Let_def split: option.splits sum.splits if_splits)

text \<open>
  Claim C9. \<open>first_used_at\<close> is set if and only if \<open>is_used\<close> is true, in every row of
  every table the handlers can reach from a table where this holds: the activation
  \<open>UPDATE\<close> sets both fields together, and a call changes the table by this \<open>UPDATE\<close> or
  not at all.
\<close>

theorem stamped_iff_used_invariant:
  "((\<forall>k row. t k = Some row \<longrightarrow> stamped_iff_used row) \<longrightarrow>
      (\<forall>r\<in>set (serve fetch cs t). \<forall>k row. db r k = Some row \<longrightarrow> stamped_iff_used row))
   \<and> ((\<forall>k row. t k = Some row \<longrightarrow> stamped_iff_used row) \<longrightarrow>
      (\<forall>r\<in>set (serve fetch_cors cs t). \<forall>k row. db r k = Some row \<longrightarrow> stamped_iff_used row))
   \<and> (t k = Some row \<longrightarrow>
      update_first_used t n k k = Some \<lparr>is_used = True, first_used_at = Some n\<rparr>)
   \<and> (db (fetch rq e t) = t \<or>
      (code_of (response (fetch rq e t)) = Some ACTIVATION_SUCCESS \<and>
       (\<exists>k' n'. db (fetch rq e t) = update_first_used t n' k')))
   \<and> (db (fetch_cors rq e t) = t \<or>
      (code_of (response (fetch_cors rq e t)) = Some ACTIVATION_SUCCESS \<and>
       (\<exists>k'. db (fetch_cors rq e t) = update_first_used t (update_now e) k')))"
proof (intro conjI impI)
  let ?I = "\<lambda>x::store. \<forall>k row. x k = Some row \<longrightarrow> stamped_iff_used row"
  assume inv: "?I t"
  have "?I (db (fetch rq e x))" if "?I x" for rq e x
    using fetch_db_cases [of rq e x] update_first_used_keeps [OF that] that by auto
  then show "\<forall>r\<in>set (serve fetch cs t). ?I (db r)"
    using inv by (intro serve_all [where I = ?I and P = "\<lambda>rq e. True"]) simp_all
next
  let ?I = "\<lambda>x::store. \<forall>k row. x k = Some row \<longrightarrow> stamped_iff_used row"
  assume inv: "?I t"
  have "?I (db (fetch_cors rq e x))" if "?I x" for rq e x
    using fetch_cors_db_cases [of rq e x] update_first_used_keeps [OF that] that by auto
  then show "\<forall>r\<in>set (serve fetch_cors cs t). ?I (db r)"
    using inv by (intro serve_all [where I = ?I and P = "\<lambda>rq e. True"]) simp_all
next
  assume "t k = Some row"
  then show "update_first_used t n k k = Some \<lparr>is_used = True, first_used_at = Some n\<rparr>"
    by (rule update_first_used_row)
next
  show "db (fetch rq e t) = t \<or>
      (code_of (response (fetch rq e t)) = Some ACTIVATION_SUCCESS \<and>
       (\<exists>k' n'. db (fetch rq e t) = update_first_used t n' k'))"
    using fetch_db_cases [of rq e t] by blast
next
  show "db (fetch_cors rq e t) = t \<or>
      (code_of (response (fetch_cors rq e t)) = Some ACTIVATION_SUCCESS \<and>
       (\<exists>k'. db (fetch_cors rq e t) = update_first_used t (update_now e) k'))"
    by (rule fetch_cors_db_cases)
qed

text \<open>The theorem at a never-used key and two calls for it.\<close>

theorem stamped_iff_used_invariant_witness:
  "list_all (\<lambda>r. case db r key29 of None \<Rightarrow> False | Some row \<Rightarrow> stamped_iff_used row)
      (serve fetch [(post key29, clocks 10 10 11), (post key29, clocks 20 20 20)]
        [key29 \<mapsto> unused_row])
   \<and> list_all (\<lambda>r. case db r key29 of None \<Rightarrow> False | Some row \<Rightarrow> stamped_iff_used row)
      (serve fetch_cors [(post key29, clocks 10 10 11), (post key29, clocks 20 20 20)]
        [key29 \<mapsto> unused_row])
   \<and> map (\<lambda>r. db r key29)
      (serve fetch_cors [(post key29, clocks 10 10 11), (post key29, clocks 20 20 20)]
        [key29 \<mapsto> unused_row])
     = [Some (used_row 11), Some (used_row 11)]
   \<and> update_first_used [key29 \<mapsto> unused_row] 11 key29 key29
      = Some \<lparr>is_used = True, first_used_at = Some 11\<rparr>"
proof -
  let ?cs = "[(post key29, clocks 10 10 11), (post key29, clocks 20 20 20)]"
  note inst = stamped_iff_used_invariant [of "[key29 \<mapsto> unused_row]" ?cs key29 unused_row 11
      "post key29" "clocks 10 10 11"]
  have inv: "\<forall>k row. [key29 \<mapsto> unused_row] k = Some row \<longrightarrow> stamped_iff_used row"
    by (simp add: stamped_iff_used_def unused_row_def)
  have present: "[key29 \<mapsto> unused_row] key29 = Some unused_row"
    by simp
  have at_key: "list_all (\<lambda>r. case db r key29 of None \<Rightarrow> False | Some row \<Rightarrow> stamped_iff_used row) rs"
    if "\<forall>r\<in>set rs. \<forall>k row. db r k = Some row \<longrightarrow> stamped_iff_used row"
      and "list_all (\<lambda>r. db r key29 \<noteq> None) rs" for rs :: "store handled list"
    using that by (auto simp: list_all_iff split: option.splits)
  have there: "list_all (\<lambda>r. db r key29 \<noteq> None) (serve fetch ?cs [key29 \<mapsto> unused_row])"
    by (simp add: handler_defs statement_defs sample_defs key29_valid Let_def)
  have rows: "map (\<lambda>r. db r key29) (serve fetch_cors ?cs [key29 \<mapsto> unused_row])
      = [Some (used_row 11), Some (used_row 11)]"
    by (simp add: handler_defs statement_defs sample_defs key29_valid Let_def)
  have there_cors: "list_all (\<lambda>r. db r key29 \<noteq> None) (serve fetch_cors ?cs [key29 \<mapsto> unused_row])"
    by (simp add: handler_defs statement_defs sample_defs key29_valid Let_def)
  from at_key [OF inst [THEN conjunct1, THEN mp, OF inv] there]
    at_key [OF inst [THEN conjunct2, THEN conjunct1, THEN mp, OF inv] there_cors]
    rows
    inst [THEN conjunct2, THEN conjunct2, THEN conjunct1, THEN mp, OF present]
  show ?thesis
    by - (intro conjI; assumption)
qed

subsection \<open>The activation write\<close>

text \<open>
  Claim C1. The first-activation write is a single conditional update scoped to the
  matching code and \<open>is_used = false\<close>, so that of any number of concurrent calls for
  the same never-used code at most one performs the activation.

  The \<open>UPDATE\<close> has no condition on \<open>is_used\<close>. Two calls whose reads both come before
  either write both go on to the write, both answer ACTIVATION_SUCCESS, and the second
  write replaces the stamp of the first:
\<close>

theorem interleaved_activations_counterexample:
  "fetch_cors_decide (post key29) (clocks 10 10 20) [key29 \<mapsto> unused_row]
     = Activate key29 10 [SelectCard key29, SelectCurrentTime]
   \<and> fetch_cors_decide (post key29) (clocks 11 11 30) [key29 \<mapsto> unused_row]
     = Activate key29 11 [SelectCard key29, SelectCurrentTime]
   \<and> code_of (response (fetch_cors_activate (post key29) key29 10
         [SelectCard key29, SelectCurrentTime] (clocks 10 10 20) [key29 \<mapsto> unused_row]))
     = Some ACTIVATION_SUCCESS
   \<and> db (fetch_cors_activate (post key29) key29 10
         [SelectCard key29, SelectCurrentTime] (clocks 10 10 20) [key29 \<mapsto> unused_row]) key29
     = Some (used_row 20)
   \<and> code_of (response (fetch_cors_activate (post key29) key29 11
         [SelectCard key29, SelectCurrentTime] (clocks 11 11 30) [key29 \<mapsto> used_row 20]))
     = Some ACTIVATION_SUCCESS
   \<and> db (fetch_cors_activate (post key29) key29 11
         [SelectCard key29, SelectCurrentTime] (clocks 11 11 30) [key29 \<mapsto> used_row 20]) key29
     = Some (used_row 30)"
  by (simp add: handler_defs statement_defs sample_defs reply_defs key29_valid)

lemma activations_Cons:
  "activations (r # rs) =
     (if code_of (response r) = Some ACTIVATION_SUCCESS then 1 else 0) + activations rs"
  by (simp add: activations_def)

lemma no_activation_once_used:
  assumes stays: "\<And>rq e t. P rq \<Longrightarrow> U t \<Longrightarrow>
      U (db (h rq e t)) \<and> code_of (response (h rq e t)) \<noteq> Some ACTIVATION_SUCCESS"
  shows "U t \<Longrightarrow> \<forall>c\<in>set cs. P (fst c) \<Longrightarrow> activations (serve h cs t) = 0"
proof (induction cs arbitrary: t)
  case Nil
  then show ?case by (simp add: activations_def)
next
  case (Cons c cs)
  obtain rq e where c: "c = (rq, e)" by (cases c)
  from Cons.prems c have P: "P rq" by simp
  from stays [OF P Cons.prems(1)] have U: "U (db (h rq e t))"
    and no: "code_of (response (h rq e t)) \<noteq> Some ACTIVATION_SUCCESS" by simp_all
  from Cons.prems(2) have "\<forall>c\<in>set cs. P (fst c)" by simp
  from Cons.IH [OF U this] no show ?case
    by (simp add: c Let_def activations_Cons)
qed

lemma at_most_one_activation:
  assumes marks: "\<And>rq e t. P rq \<Longrightarrow>
      code_of (response (h rq e t)) = Some ACTIVATION_SUCCESS \<Longrightarrow> U (db (h rq e t))"
    and stays: "\<And>rq e t. P rq \<Longrightarrow> U t \<Longrightarrow>
      U (db (h rq e t)) \<and> code_of (response (h rq e t)) \<noteq> Some ACTIVATION_SUCCESS"
  shows "\<forall>c\<in>set cs. P (fst c) \<Longrightarrow> activations (serve h cs t) \<le> 1"
proof (induction cs arbitrary: t)
  case Nil
  then show ?case by (simp add: activations_def)
next
  case (Cons c cs)
  obtain rq e where c: "c = (rq, e)" by (cases c)
  from Cons.prems c have P: "P rq" by simp
  from Cons.prems have rest: "\<forall>c\<in>set cs. P (fst c)" by simp
  show ?case
  proof (cases "code_of (response (h rq e t)) = Some ACTIVATION_SUCCESS")
    case True
    from marks [OF P True] have "U (db (h rq e t))" .
    from no_activation_once_used [of P U h, OF stays this rest] True show ?thesis
      by (simp add: c Let_def activations_Cons)
  next
    case False
    with Cons.IH [OF rest, of "db (h rq e t)"] show ?thesis
      by (simp add: c Let_def activations_Cons)
  qed
qed

lemma fetch_cors_marks:
  "json rq = Some (CardKey k) \<Longrightarrow>
     code_of (response (fetch_cors rq e t)) = Some ACTIVATION_SUCCESS \<Longrightarrow>
     \<exists>row. db (fetch_cors rq e t) k = Some row \<and> is_used row"
  by (auto simp: handler_defs reply_defs select_card_cors_def update_first_used_def
      handleOptions_def Let_def
      dest!: schema_key split: option.splits sum.splits if_splits)

lemma fetch_cors_stays:
  "json rq = Some (CardKey k) \<Longrightarrow> \<exists>row. t k = Some row \<and> is_used row \<Longrightarrow>
     (\<exists>row. db (fetch_cors rq e t) k = Some row \<and> is_used row) \<and>
     code_of (response (fetch_cors rq e t)) \<noteq> Some ACTIVATION_SUCCESS"
  by (auto simp: handler_defs reply_defs select_card_cors_def update_first_used_def
      handleOptions_def Let_def
      dest!: schema_key split: option.splits sum.splits if_splits)

lemma onRequest_marks:
  "json rq = Some (CardKey k) \<Longrightarrow>
     code_of (response (onRequest rq e lt)) = Some ACTIVATION_SUCCESS \<Longrightarrow>
     \<exists>row. db (onRequest rq e lt) k = Some row \<and> legacy_row.is_used row"
  by (auto simp: handler_defs reply_defs select_card_keys_def update_card_keys_def Let_def
      dest!: schema16_key split: option.splits sum.splits if_splits)

lemma onRequest_stays:
  "json rq = Some (CardKey k) \<Longrightarrow> \<exists>row. lt k = Some row \<and> legacy_row.is_used row \<Longrightarrow>
     (\<exists>row. db (onRequest rq e lt) k = Some row \<and> legacy_row.is_used row) \<and>
     code_of (response (onRequest rq e lt)) \<noteq> Some ACTIVATION_SUCCESS"
  by (auto simp: handler_defs reply_defs select_card_keys_def update_card_keys_def Let_def
      dest!: schema16_key split: option.splits sum.splits if_splits)

lemma activations_none:
  "\<forall>r\<in>set rs. code_of (response r) \<noteq> Some ACTIVATION_SUCCESS \<Longrightarrow> activations rs = 0"
  by (simp add: activations_def filter_empty_conv)

text \<open>The table after a call: the \<open>UPDATE\<close> at the key of the request when the call
  answers ACTIVATION_SUCCESS, the table before the call otherwise.\<close>

lemma fetch_cors_write:
  "json rq = Some (CardKey k) \<Longrightarrow>
     code_of (response (fetch_cors rq e t)) = Some ACTIVATION_SUCCESS \<Longrightarrow>
     db (fetch_cors rq e t) = update_first_used t (update_now e) k"
  "code_of (response (fetch_cors rq e t)) \<noteq> Some ACTIVATION_SUCCESS \<Longrightarrow>
     db (fetch_cors rq e t) = t"
  by (auto simp: handler_defs reply_defs handleOptions_def Let_def
      dest!: schema_key split: option.splits sum.splits if_splits)

lemma onRequest_write:
  "json rq = Some (CardKey k) \<Longrightarrow>
     code_of (response (onRequest rq e lt)) = Some ACTIVATION_SUCCESS \<Longrightarrow>
     db (onRequest rq e lt) = update_card_keys lt (js_now e) (js_now e + 24 * 60 * 60) k"
  "code_of (response (onRequest rq e lt)) \<noteq> Some ACTIVATION_SUCCESS \<Longrightarrow>
     db (onRequest rq e lt) = lt"
  by (auto simp: handler_defs reply_defs js_now_def Let_def
      dest!: schema16_key split: option.splits sum.splits if_splits)

text \<open>The first call for a never-used code, when nothing throws.\<close>

lemma fetch_cors_first:
  assumes "t k = Some row" "\<not> is_used row" "first_used_at row = None" "resolves rq k"
    "\<not> select_throws e" "\<not> current_time_throws e" "\<not> update_throws e"
  shows "code_of (response (fetch_cors rq e t)) = Some ACTIVATION_SUCCESS"
    and "db (fetch_cors rq e t) = update_first_used t (update_now e) k"
proof -
  note full = fetch_cors_activation [of t k row rq e, OF assms]
  show "code_of (response (fetch_cors rq e t)) = Some ACTIVATION_SUCCESS"
    by (simp add: full reply_defs)
  from assms(1) show "db (fetch_cors rq e t) = update_first_used t (update_now e) k"
    by (cases row) (simp add: full update_first_used_def)
qed

lemma onRequest_first:
  assumes "lt k = Some lrow" "\<not> legacy_row.is_used lrow" "select_now e < expires_at lrow"
    "resolves16 rq k" "\<not> select_throws e" "\<not> update_throws e"
  shows "code_of (response (onRequest rq e lt)) = Some ACTIVATION_SUCCESS"
    and "db (onRequest rq e lt) = update_card_keys lt (js_now e) (js_now e + 24 * 60 * 60) k"
  using assms
  by (simp_all add: handler_defs select_card_keys_def strftime_s_def vocabulary_defs reply_defs
      Let_def)

text \<open>A call for a code whose row is used, when its reads do not throw.\<close>

lemma fetch_cors_after:
  assumes "t k = Some row" "is_used row" "resolves rq k" "\<not> select_throws e"
    "\<not> current_time_throws e"
  shows "db (fetch_cors rq e t) = t \<and> \<not> writes (fetch_cors rq e t) \<and>
    code_of (response (fetch_cors rq e t))
      \<in> {Some SESSION_RENEWED, Some CARD_EXPIRED, Some INVALID_CARD}"
  using assms
  by (simp add: handler_defs select_card_cors_def vocabulary_defs reply_defs Let_def)

lemma onRequest_after:
  assumes "lt k = Some lrow" "legacy_row.is_used lrow" "resolves16 rq k" "\<not> select_throws e"
  shows "db (onRequest rq e lt) = lt \<and> \<not> writes (onRequest rq e lt) \<and>
    code_of (response (onRequest rq e lt))
      \<in> {Some SESSION_RENEWED, Some CARD_EXPIRED, Some INVALID_CARD}"
  using assms
  by (simp add: handler_defs select_card_keys_def vocabulary_defs reply_defs Let_def)

lemma fetch_cors_once:
  assumes row: "t k = Some row" "\<not> is_used row" "first_used_at row = None"
    and first: "resolves rq k" "\<not> select_throws e" "\<not> current_time_throws e"
      "\<not> update_throws e"
    and cs: "\<forall>c\<in>set cs. resolves (fst c) k \<and> \<not> select_throws (snd c) \<and>
          \<not> current_time_throws (snd c)"
  shows "\<forall>r\<in>set (serve fetch_cors cs (db (fetch_cors rq e t))).
        db r = update_first_used t (update_now e) k \<and> \<not> writes r \<and>
        code_of (response r) \<in> {Some SESSION_RENEWED, Some CARD_EXPIRED, Some INVALID_CARD}"
    and "activations (serve fetch_cors ((rq, e) # cs) t) = 1"
proof -
  let ?t' = "update_first_used t (update_now e) k"
  let ?P = "\<lambda>rq e. resolves rq k \<and> \<not> select_throws e \<and> \<not> current_time_throws e"
  note now = fetch_cors_first [of t k row rq e, OF row first]
  have stamped: "?t' k = Some \<lparr>is_used = True, first_used_at = Some (update_now e)\<rparr>"
    using row(1) by (rule update_first_used_row)
  have step: "db (fetch_cors rq' e' x) = ?t' \<and> db (fetch_cors rq' e' x) = ?t' \<and>
      \<not> writes (fetch_cors rq' e' x) \<and>
      code_of (response (fetch_cors rq' e' x))
        \<in> {Some SESSION_RENEWED, Some CARD_EXPIRED, Some INVALID_CARD}"
    if "?P rq' e'" "x = ?t'" for rq' e' x
    using that stamped
      fetch_cors_after [of ?t' k "\<lparr>is_used = True, first_used_at = Some (update_now e)\<rparr>" rq' e']
    by simp
  have rest: "\<forall>r\<in>set (serve fetch_cors cs ?t').
        db r = ?t' \<and> \<not> writes r \<and>
        code_of (response r) \<in> {Some SESSION_RENEWED, Some CARD_EXPIRED, Some INVALID_CARD}"
    by (rule serve_all [where I = "\<lambda>x. x = ?t'" and P = ?P]) (use step cs in simp_all)
  then show "\<forall>r\<in>set (serve fetch_cors cs (db (fetch_cors rq e t))).
        db r = ?t' \<and> \<not> writes r \<and>
        code_of (response r) \<in> {Some SESSION_RENEWED, Some CARD_EXPIRED, Some INVALID_CARD}"
    by (simp add: now(2))
  from rest have "activations (serve fetch_cors cs ?t') = 0"
    by (intro activations_none) auto
  then show "activations (serve fetch_cors ((rq, e) # cs) t) = 1"
    by (simp add: activations_Cons Let_def now)
qed

lemma onRequest_once:
  assumes row: "lt k = Some lrow" "\<not> legacy_row.is_used lrow" "select_now e < expires_at lrow"
    and first: "resolves16 rq k" "\<not> select_throws e" "\<not> update_throws e"
    and cs: "\<forall>c\<in>set cs. resolves16 (fst c) k \<and> \<not> select_throws (snd c)"
  shows "\<forall>r\<in>set (serve onRequest cs (db (onRequest rq e lt))).
        db r = update_card_keys lt (js_now e) (js_now e + 24 * 60 * 60) k \<and> \<not> writes r \<and>
        code_of (response r) \<in> {Some SESSION_RENEWED, Some CARD_EXPIRED, Some INVALID_CARD}"
    and "activations (serve onRequest ((rq, e) # cs) lt) = 1"
proof -
  let ?t' = "update_card_keys lt (js_now e) (js_now e + 24 * 60 * 60) k"
  let ?row' = "\<lparr>expires_at = js_now e + 24 * 60 * 60, is_used = True,
      activated_at = Some (js_now e)\<rparr>"
  let ?P = "\<lambda>rq e. resolves16 rq k \<and> \<not> select_throws e"
  note now = onRequest_first [of lt k lrow e rq, OF row first]
  have stamped: "?t' k = Some ?row'"
    using row(1) by (rule update_card_keys_row)
  have step: "db (onRequest rq' e' x) = ?t' \<and> db (onRequest rq' e' x) = ?t' \<and>
      \<not> writes (onRequest rq' e' x) \<and>
      code_of (response (onRequest rq' e' x))
        \<in> {Some SESSION_RENEWED, Some CARD_EXPIRED, Some INVALID_CARD}"
    if "?P rq' e'" "x = ?t'" for rq' e' x
    using that stamped onRequest_after [of ?t' k ?row' rq' e'] by simp
  have rest: "\<forall>r\<in>set (serve onRequest cs ?t').
        db r = ?t' \<and> \<not> writes r \<and>
        code_of (response r) \<in> {Some SESSION_RENEWED, Some CARD_EXPIRED, Some INVALID_CARD}"
    by (rule serve_all [where I = "\<lambda>x. x = ?t'" and P = ?P]) (use step cs in simp_all)
  then show "\<forall>r\<in>set (serve onRequest cs (db (onRequest rq e lt))).
        db r = ?t' \<and> \<not> writes r \<and>
        code_of (response r) \<in> {Some SESSION_RENEWED, Some CARD_EXPIRED, Some INVALID_CARD}"
    by (simp add: now(2))
  from rest have "activations (serve onRequest cs ?t') = 0"
    by (intro activations_none) auto
  then show "activations (serve onRequest ((rq, e) # cs) lt) = 1"
    by (simp add: activations_Cons Let_def now)
qed

lemma keys_differ: "key29 \<noteq> key16"
  by (simp add: key29_def key16_def)

text \<open>
  Claim C1, amended. The first-activation write is a single update scoped to the
  matching code only, with no condition on \<open>is_used\<close>: a call that answers
  ACTIVATION_SUCCESS leaves the table with that update applied at the key of its
  request, every other call leaves the table as it was, and the update leaves every
  other row as it is and sets the flag and the stamp of the matching row whatever its
  \<open>is_used\<close>. When calls for the same never-used code are served one after another and
  nothing throws, the first performs the activation and every later one finds the row
  used, writes nothing and answers SESSION_RENEWED, CARD_EXPIRED or INVALID_CARD:
  exactly one activation. Whatever throws, at most one call of such a sequence performs
  the activation. Calls whose reads and writes interleave are not covered.
\<close>

theorem activation_write_scoped_to_key:
  "(t k = Some row \<and> \<not> is_used row \<and> first_used_at row = None \<and> resolves rq k \<and>
      \<not> select_throws e \<and> \<not> current_time_throws e \<and> \<not> update_throws e \<and>
      (\<forall>c\<in>set cs. resolves (fst c) k \<and> \<not> select_throws (snd c) \<and>
          \<not> current_time_throws (snd c))
    \<longrightarrow> code_of (response (fetch_cors rq e t)) = Some ACTIVATION_SUCCESS
      \<and> (\<forall>r\<in>set (serve fetch_cors cs (db (fetch_cors rq e t))).
            db r = update_first_used t (update_now e) k \<and> \<not> writes r \<and>
            code_of (response r)
              \<in> {Some SESSION_RENEWED, Some CARD_EXPIRED, Some INVALID_CARD})
      \<and> activations (serve fetch_cors ((rq, e) # cs) t) = 1)
   \<and> (lt k16 = Some lrow \<and> \<not> legacy_row.is_used lrow \<and> select_now e < expires_at lrow \<and>
      resolves16 rq k16 \<and> \<not> select_throws e \<and> \<not> update_throws e \<and>
      (\<forall>c\<in>set cs. resolves16 (fst c) k16 \<and> \<not> select_throws (snd c))
    \<longrightarrow> code_of (response (onRequest rq e lt)) = Some ACTIVATION_SUCCESS
      \<and> (\<forall>r\<in>set (serve onRequest cs (db (onRequest rq e lt))).
            db r = update_card_keys lt (js_now e) (js_now e + 24 * 60 * 60) k16 \<and>
            \<not> writes r \<and>
            code_of (response r)
              \<in> {Some SESSION_RENEWED, Some CARD_EXPIRED, Some INVALID_CARD})
      \<and> activations (serve onRequest ((rq, e) # cs) lt) = 1)
   \<and> (json rq = Some (CardKey k) \<and>
      code_of (response (fetch_cors rq e t)) = Some ACTIVATION_SUCCESS
    \<longrightarrow> db (fetch_cors rq e t) = update_first_used t (update_now e) k)
   \<and> (code_of (response (fetch_cors rq e t)) \<noteq> Some ACTIVATION_SUCCESS
    \<longrightarrow> db (fetch_cors rq e t) = t)
   \<and> (json rq = Some (CardKey k16) \<and>
      code_of (response (onRequest rq e lt)) = Some ACTIVATION_SUCCESS
    \<longrightarrow> db (onRequest rq e lt)
        = update_card_keys lt (js_now e) (js_now e + 24 * 60 * 60) k16)
   \<and> (code_of (response (onRequest rq e lt)) \<noteq> Some ACTIVATION_SUCCESS
    \<longrightarrow> db (onRequest rq e lt) = lt)
   \<and> (k' \<noteq> k \<longrightarrow> update_first_used t n k k' = t k')
   \<and> (t k = Some row \<longrightarrow>
      update_first_used t n k k = Some \<lparr>is_used = True, first_used_at = Some n\<rparr>)
   \<and> (k' \<noteq> k16 \<longrightarrow> update_card_keys lt a x k16 k' = lt k')
   \<and> (lt k16 = Some lrow \<longrightarrow>
      update_card_keys lt a x k16 k16
        = Some \<lparr>expires_at = x, is_used = True, activated_at = Some a\<rparr>)
   \<and> ((\<forall>c\<in>set cs. json (fst c) = Some (CardKey k)) \<longrightarrow>
      activations (serve fetch_cors cs t) \<le> 1)
   \<and> ((\<forall>c\<in>set cs. json (fst c) = Some (CardKey k16)) \<longrightarrow>
      activations (serve onRequest cs lt) \<le> 1)"
proof (intro conjI impI; (elim conjE)?)
  assume cs: "\<forall>c\<in>set cs. json (fst c) = Some (CardKey k)"
  show "activations (serve fetch_cors cs t) \<le> 1"
    by (rule at_most_one_activation [where P = "\<lambda>rq. json rq = Some (CardKey k)"
          and U = "\<lambda>x. \<exists>row. x k = Some row \<and> is_used row"])
      (use cs fetch_cors_marks fetch_cors_stays in blast)+
next
  assume cs: "\<forall>c\<in>set cs. json (fst c) = Some (CardKey k16)"
  show "activations (serve onRequest cs lt) \<le> 1"
    by (rule at_most_one_activation [where P = "\<lambda>rq. json rq = Some (CardKey k16)"
          and U = "\<lambda>x. \<exists>row. x k16 = Some row \<and> legacy_row.is_used row"])
      (use cs onRequest_marks onRequest_stays in blast)+
next
  assume row: "t k = Some row" "\<not> is_used row" "first_used_at row = None"
    and first: "resolves rq k" "\<not> select_throws e" "\<not> current_time_throws e"
      "\<not> update_throws e"
    and cs: "\<forall>c\<in>set cs. resolves (fst c) k \<and> \<not> select_throws (snd c) \<and>
          \<not> current_time_throws (snd c)"
  show "code_of (response (fetch_cors rq e t)) = Some ACTIVATION_SUCCESS"
    by (rule fetch_cors_first(1) [of t k row rq e, OF row first])
  show "\<forall>r\<in>set (serve fetch_cors cs (db (fetch_cors rq e t))).
            db r = update_first_used t (update_now e) k \<and> \<not> writes r \<and>
            code_of (response r)
              \<in> {Some SESSION_RENEWED, Some CARD_EXPIRED, Some INVALID_CARD}"
    by (rule fetch_cors_once(1) [of t k row rq e cs, OF row first cs])
  show "activations (serve fetch_cors ((rq, e) # cs) t) = 1"
    by (rule fetch_cors_once(2) [of t k row rq e cs, OF row first cs])
next
  assume row: "lt k16 = Some lrow" "\<not> legacy_row.is_used lrow" "select_now e < expires_at lrow"
    and first: "resolves16 rq k16" "\<not> select_throws e" "\<not> update_throws e"
    and cs: "\<forall>c\<in>set cs. resolves16 (fst c) k16 \<and> \<not> select_throws (snd c)"
  show "code_of (response (onRequest rq e lt)) = Some ACTIVATION_SUCCESS"
    by (rule onRequest_first(1) [of lt k16 lrow e rq, OF row first])
  show "\<forall>r\<in>set (serve onRequest cs (db (onRequest rq e lt))).
            db r = update_card_keys lt (js_now e) (js_now e + 24 * 60 * 60) k16 \<and>
            \<not> writes r \<and>
            code_of (response r)
              \<in> {Some SESSION_RENEWED, Some CARD_EXPIRED, Some INVALID_CARD}"
    by (rule onRequest_once(1) [of lt k16 lrow e rq cs, OF row first cs])
  show "activations (serve onRequest ((rq, e) # cs) lt) = 1"
    by (rule onRequest_once(2) [of lt k16 lrow e rq cs, OF row first cs])
qed (simp_all add: update_first_used_row update_first_used_other update_card_keys_row
    update_card_keys_other fetch_cors_write onRequest_write)

text \<open>The theorem at a never-used key and two calls for it, the first at second 10
  (written at second 20 of the database clock); at the update of a used row; and at two
  calls of which the first fails in its write.\<close>

theorem activation_write_scoped_to_key_witness:
  "code_of (response (fetch_cors (post key29) (clocks 10 10 20) [key29 \<mapsto> unused_row]))
     = Some ACTIVATION_SUCCESS
   \<and> list_all (\<lambda>r.
        db r = update_first_used [key29 \<mapsto> unused_row] 20 key29 \<and> \<not> writes r \<and>
        code_of (response r) \<in> {Some SESSION_RENEWED, Some CARD_EXPIRED, Some INVALID_CARD})
      (serve fetch_cors [(post key29, clocks 30 30 40)]
        (db (fetch_cors (post key29) (clocks 10 10 20) [key29 \<mapsto> unused_row])))
   \<and> activations (serve fetch_cors
        [(post key29, clocks 10 10 20), (post key29, clocks 30 30 40)]
        [key29 \<mapsto> unused_row]) = 1
   \<and> code_of (response (onRequest (post key16) (clocks 10 10 20)
        [key16 \<mapsto> \<lparr>expires_at = 5000000, is_used = False, activated_at = None\<rparr>]))
     = Some ACTIVATION_SUCCESS
   \<and> list_all (\<lambda>r.
        db r = update_card_keys
          [key16 \<mapsto> \<lparr>expires_at = 5000000, is_used = False, activated_at = None\<rparr>]
          10 (10 + 24 * 60 * 60) key16 \<and> \<not> writes r \<and>
        code_of (response r) \<in> {Some SESSION_RENEWED, Some CARD_EXPIRED, Some INVALID_CARD})
      (serve onRequest [(post key16, clocks 30 30 40)]
        (db (onRequest (post key16) (clocks 10 10 20)
          [key16 \<mapsto> \<lparr>expires_at = 5000000, is_used = False, activated_at = None\<rparr>])))
   \<and> activations (serve onRequest
        [(post key16, clocks 10 10 20), (post key16, clocks 30 30 40)]
        [key16 \<mapsto> \<lparr>expires_at = 5000000, is_used = False, activated_at = None\<rparr>]) = 1
   \<and> update_first_used [key29 \<mapsto> used_row 5] 9 key29 key29
     = Some \<lparr>is_used = True, first_used_at = Some 9\<rparr>
   \<and> update_first_used [key29 \<mapsto> used_row 5] 9 key29 key16 = [key29 \<mapsto> used_row 5] key16
   \<and> db (fetch_cors (post key29) (clocks 10 10 20) [key29 \<mapsto> unused_row])
     = update_first_used [key29 \<mapsto> unused_row] 20 key29
   \<and> db (onRequest (post key16) (clocks 10 10 20)
        [key16 \<mapsto> \<lparr>expires_at = 5000000, is_used = False, activated_at = None\<rparr>])
     = update_card_keys
        [key16 \<mapsto> \<lparr>expires_at = 5000000, is_used = False, activated_at = None\<rparr>]
        10 (10 + 24 * 60 * 60) key16
   \<and> activations (serve fetch_cors
        [(post key29, (clocks 10 10 20)\<lparr>update_throws := True\<rparr>), (post key29, clocks 30 30 40)]
        [key29 \<mapsto> unused_row]) \<le> 1
   \<and> activations (serve onRequest
        [(post key16, (clocks 10 10 20)\<lparr>update_throws := True\<rparr>), (post key16, clocks 30 30 40)]
        [key16 \<mapsto> \<lparr>expires_at = 5000000, is_used = False, activated_at = None\<rparr>]) \<le> 1"
proof -
  let ?lrow = "\<lparr>expires_at = 5000000, is_used = False, activated_at = None\<rparr>"
  note cors = activation_write_scoped_to_key [of "[key29 \<mapsto> unused_row]" key29 unused_row
      "post key29" "clocks 10 10 20" "[(post key29, clocks 30 30 40)]"
      Map.empty key16 ?lrow key16 9 9 99]
  note legacy = activation_write_scoped_to_key [of Map.empty key29 unused_row
      "post key16" "clocks 10 10 20" "[(post key16, clocks 30 30 40)]"
      "[key16 \<mapsto> ?lrow]" key16 ?lrow key29 9 9 99]
  note scope = activation_write_scoped_to_key [of "[key29 \<mapsto> used_row 5]" key29 "used_row 5"
      "post key29" "clocks 10 10 20" "[]" Map.empty key16 ?lrow key16 9 9 99]
  note cors_throw = activation_write_scoped_to_key [of "[key29 \<mapsto> unused_row]" key29
      unused_row "post key29" "clocks 10 10 20"
      "[(post key29, (clocks 10 10 20)\<lparr>update_throws := True\<rparr>), (post key29, clocks 30 30 40)]"
      Map.empty key16 ?lrow key16 9 9 99]
  note legacy_throw = activation_write_scoped_to_key [of Map.empty key29 unused_row
      "post key16" "clocks 10 10 20"
      "[(post key16, (clocks 10 10 20)\<lparr>update_throws := True\<rparr>), (post key16, clocks 30 30 40)]"
      "[key16 \<mapsto> ?lrow]" key16 ?lrow key29 9 9 99]
  have keys: "\<forall>c\<in>set [(post key29, (clocks 10 10 20)\<lparr>update_throws := True\<rparr>),
        (post key29, clocks 30 30 40)]. json (fst c) = Some (CardKey key29)"
    by (simp add: post_def)
  have keys16: "\<forall>c\<in>set [(post key16, (clocks 10 10 20)\<lparr>update_throws := True\<rparr>),
        (post key16, clocks 30 30 40)]. json (fst c) = Some (CardKey key16)"
    by (simp add: post_def)
  have body: "json (post key29) = Some (CardKey key29)"
    by (simp add: post_def)
  have body16: "json (post key16) = Some (CardKey key16)"
    by (simp add: post_def)
  have a: "[key29 \<mapsto> unused_row] key29 = Some unused_row \<and> \<not> is_used unused_row \<and>
      first_used_at unused_row = None \<and> resolves (post key29) key29 \<and>
      \<not> select_throws (clocks 10 10 20) \<and> \<not> current_time_throws (clocks 10 10 20) \<and>
      \<not> update_throws (clocks 10 10 20) \<and>
      (\<forall>c\<in>set [(post key29, clocks 30 30 40)]. resolves (fst c) key29 \<and>
          \<not> select_throws (snd c) \<and> \<not> current_time_throws (snd c))"
    by (simp add: resolves_post29 clocks_def unused_row_def)
  have b: "[key16 \<mapsto> ?lrow] key16 = Some ?lrow \<and> \<not> legacy_row.is_used ?lrow \<and>
      select_now (clocks 10 10 20) < expires_at ?lrow \<and> resolves16 (post key16) key16 \<and>
      \<not> select_throws (clocks 10 10 20) \<and> \<not> update_throws (clocks 10 10 20) \<and>
      (\<forall>c\<in>set [(post key16, clocks 30 30 40)]. resolves16 (fst c) key16 \<and>
          \<not> select_throws (snd c))"
    by (simp add: resolves_post16 clocks_def)
  have upd: "update_now (clocks 10 10 20) = 20"
    by (simp add: clocks_def)
  have now: "js_now (clocks 10 10 20) = 10"
    by (simp add: clocks_def js_now_def)
  have present: "[key29 \<mapsto> used_row 5] key29 = Some (used_row 5)"
    by simp
  note A = cors [THEN conjunct1, THEN mp, OF a, unfolded upd]
  note B = legacy [THEN conjunct2, THEN conjunct1, THEN mp, OF b, unfolded now]
  from A [THEN conjunct1] list_all_iff [THEN iffD2, OF A [THEN conjunct2, THEN conjunct1]]
    A [THEN conjunct2, THEN conjunct2]
    B [THEN conjunct1] list_all_iff [THEN iffD2, OF B [THEN conjunct2, THEN conjunct1]]
    B [THEN conjunct2, THEN conjunct2]
    scope [THEN conjunct2, THEN conjunct2, THEN conjunct2, THEN conjunct2, THEN conjunct2, THEN conjunct2, THEN conjunct2, THEN conjunct1, THEN mp, OF present]
    scope [THEN conjunct2, THEN conjunct2, THEN conjunct2, THEN conjunct2, THEN conjunct2, THEN conjunct2, THEN conjunct1, THEN mp, OF keys_differ [symmetric]]
    cors [THEN conjunct2, THEN conjunct2, THEN conjunct1, THEN mp, OF conjI [OF body A [THEN conjunct1]], unfolded upd]
    legacy [THEN conjunct2, THEN conjunct2, THEN conjunct2, THEN conjunct2, THEN conjunct1, THEN mp, OF conjI [OF body16 B [THEN conjunct1]], unfolded now]
    cors_throw [THEN conjunct2, THEN conjunct2, THEN conjunct2, THEN conjunct2, THEN conjunct2, THEN conjunct2, THEN conjunct2, THEN conjunct2, THEN conjunct2, THEN conjunct2, THEN conjunct1, THEN mp, OF keys]
    legacy_throw [THEN conjunct2, THEN conjunct2, THEN conjunct2, THEN conjunct2, THEN conjunct2, THEN conjunct2, THEN conjunct2, THEN conjunct2, THEN conjunct2, THEN conjunct2, THEN conjunct2, THEN mp, OF keys16]
  show ?thesis
    by - (intro conjI; assumption)
qed

end
